theory Spec2Isabelle
  imports Complex_Main "HOL-Library.Word" "HOL-Library.Code_Target_Numeral"
begin

unbundle bit_operations_syntax

section \<open>Data model\<close>

text \<open>
  The embedding follows \<^verbatim>\<open>src/screenshots-diff/diffImagesAsync.ts\<close>.

  A decoded image carries its pixels as RGBA bytes; the source overlays a
  \<^verbatim>\<open>Uint32Array\<close> on the same buffer and names the packed words \<^verbatim>\<open>ABGR\<close>:
  byte 0 of a pixel (red) is the low byte of its word, byte 3 (alpha) the high byte.
  Buffers are therefore lists of 32-bit words, and the byte view \<^verbatim>\<open>diffData[i]\<close> is
  read through \<open>diffData\<close> below. JavaScript numbers that hold counts, indices and
  the hash are \<open>nat\<close> or \<open>int\<close>, which doubles represent exactly below \<open>2^53\<close>
  (the numbers of a viewport are taken to be natural numbers; its \<open>scale\<close> is never
  read). The threshold and the brightness difference are doubles with fractions: they are
  \<open>real\<close> numbers here, and every operation on them is rounded as IEEE 754 prescribes,
  see \<open>double\<close> below.
\<close>

type_synonym uint32 = "32 word"

record Viewport =
  vp_x :: nat
  vp_y :: nat
  vp_width :: nat
  vp_height :: nat
  vp_scale :: nat

record TestInformation =
  ti_name :: string
  ti_viewport :: Viewport

record Image =
  img_width :: nat
  img_height :: nat
  img_data32 :: "uint32 list"

record ImageAndTestInformation =
  image :: "Image option"
  info :: "TestInformation option"

text \<open>The \<^verbatim>\<open>threshold\<close> of a job request: a number, \<^verbatim>\<open>NaN\<close>, or absent.\<close>

datatype jsnumber = Undefined | NaN | Num real

definition COLOR_COMPONENTS :: nat where
  "COLOR_COMPONENTS = 4"

definition DEFAULT_THRESHOLD :: real where
  "DEFAULT_THRESHOLD = 0.03"

definition COLOR_HIGHLIGHT_ABGR :: uint32 where
  "COLOR_HIGHLIGHT_ABGR = 0xff0000ff"

definition DIFF_HASH_SPREAD :: int where
  "DIFF_HASH_SPREAD = 0x1337"

section \<open>Doubles\<close>

text \<open>
  \<open>double x\<close> is the IEEE 754 double (binary64) nearest to the real number \<open>x\<close>,
  ties to even: the rounding of every arithmetic operation of the engine and of every
  number written in decimal. A double has 53 significant bits, counted from the binade
  \<open>2^e \<le> |x| < 2^(e+1)\<close> of \<open>x\<close>, and below \<open>2^-1022\<close> (the subnormal numbers)
  the spacing stays \<open>2^-1074\<close>. \<open>exponent\<close> finds \<open>e\<close> by halving or doubling.
  Overflow to \<^verbatim>\<open>Infinity\<close> is left out: the only number of the engine without a bound
  is the threshold of the request, which is clamped to [0, 1] before it is used, with the
  same result for \<^verbatim>\<open>Infinity\<close> as for any number from 1 on.
\<close>

function binadeUp :: "real \<Rightarrow> int" where
  "binadeUp x = (if 2 \<le> x then binadeUp (x / 2) + 1 else 0)"
  by pat_completeness auto
termination
proof (relation "measure (\<lambda>x. nat \<lfloor>x\<rfloor>)")
  show "wf (measure (\<lambda>x::real. nat \<lfloor>x\<rfloor>))" by simp
next
  fix x :: real
  assume "2 \<le> x"
  then have "\<lfloor>x / 2\<rfloor> < \<lfloor>x\<rfloor>" by linarith
  moreover have "0 < \<lfloor>x\<rfloor>" using \<open>2 \<le> x\<close> by linarith
  ultimately show "(x / 2, x) \<in> measure (\<lambda>x. nat \<lfloor>x\<rfloor>)" by simp
qed

function binadeDown :: "real \<Rightarrow> int" where
  "binadeDown x = (if 0 < x \<and> x < 1 then binadeDown (2 * x) - 1 else 0)"
  by pat_completeness auto
termination
proof (relation "measure (\<lambda>x. nat \<lfloor>1 / x\<rfloor>)")
  show "wf (measure (\<lambda>x::real. nat \<lfloor>1 / x\<rfloor>))" by simp
next
  fix x :: real
  assume a: "0 < x \<and> x < 1"
  define a where "a = 1 / x"
  from a have "1 < a" by (simp add: a_def)
  then have "1 \<le> \<lfloor>a\<rfloor>" by linarith
  then have "a / 2 < of_int \<lfloor>a\<rfloor>" by linarith
  then have "\<lfloor>a / 2\<rfloor> < \<lfloor>a\<rfloor>" "0 < \<lfloor>a\<rfloor>"
    using \<open>1 \<le> \<lfloor>a\<rfloor>\<close> by (simp_all add: floor_less_iff)
  moreover have "1 / (2 * x) = a / 2" by (simp add: a_def)
  ultimately have "\<lfloor>1 / (2 * x)\<rfloor> < \<lfloor>1 / x\<rfloor>" "0 < \<lfloor>1 / x\<rfloor>"
    by (simp_all only: a_def)
  then show "(2 * x, x) \<in> measure (\<lambda>x. nat \<lfloor>1 / x\<rfloor>)" by simp
qed

declare binadeUp.simps [simp del] binadeDown.simps [simp del]

text \<open>The binade of a positive number.\<close>

definition exponent :: "real \<Rightarrow> int" where
  "exponent x = (if 1 \<le> x then binadeUp x else binadeDown x)"

definition roundTiesToEven :: "real \<Rightarrow> int" where
  "roundTiesToEven r =
     (let n = \<lfloor>r\<rfloor>; d = r - of_int n
      in if d < 1 / 2 then n else if 1 / 2 < d then n + 1 else if even n then n else n + 1)"

definition double :: "real \<Rightarrow> real" where
  "double x =
     (if x = 0 then 0
      else let u = 2 powi (max (exponent \<bar>x\<bar>) (- 1022) - 52)
           in sgn x * of_int (roundTiesToEven (\<bar>x\<bar> / u)) * u)"

text \<open>The product and the sum of two doubles.\<close>

definition fmul :: "real \<Rightarrow> real \<Rightarrow> real" where
  "fmul a b = double (a * b)"

definition fadd :: "real \<Rightarrow> real \<Rightarrow> real" where
  "fadd a b = double (a + b)"

section \<open>The threshold\<close>

text \<open>
  \<^verbatim>\<open>threshold || DEFAULT_THRESHOLD\<close>: JavaScript's \<^verbatim>\<open>||\<close> takes its right operand
  when the left one is falsy, and the falsy numbers are \<^verbatim>\<open>0\<close> and \<^verbatim>\<open>NaN\<close>.
\<close>

fun orDefault :: "jsnumber \<Rightarrow> real" where
  "orDefault (Num v) = (if v = 0 then DEFAULT_THRESHOLD else v)"
| "orDefault NaN = DEFAULT_THRESHOLD"
| "orDefault Undefined = DEFAULT_THRESHOLD"

text \<open>
  The expression of lines 81 and 82 over the real numbers, for a threshold and a
  default that are given exactly.
\<close>

definition BRIGHTNESS_DIFFERENCE_THRESHOLD :: "jsnumber \<Rightarrow> real" where
  "BRIGHTNESS_DIFFERENCE_THRESHOLD threshold = 255 * min 1 (max 0 (orDefault threshold))"

text \<open>
  The same expression as the engine evaluates it. The threshold of the request is the
  double nearest to the number written, \<^verbatim>\<open>DEFAULT_THRESHOLD\<close> is the double nearest to
  0.03, and \<open>thresholdOperand\<close> is the operand \<^verbatim>\<open>threshold || DEFAULT_THRESHOLD\<close>,
  a double other than 0. \<^verbatim>\<open>Math.max\<close> and \<^verbatim>\<open>Math.min\<close> are exact and only the
  product with 255 is rounded: \<open>BRIGHTNESS_DIFFERENCE_THRESHOLD\<close> at the operand is the
  exact product (lemma \<open>threshold255_product\<close>), and \<open>threshold255Of\<close> its double.
\<close>

definition thresholdOperand :: "jsnumber \<Rightarrow> real" where
  "thresholdOperand threshold =
     (case threshold of
        Num v \<Rightarrow> if double v = 0 then double DEFAULT_THRESHOLD else double v
      | _ \<Rightarrow> double DEFAULT_THRESHOLD)"

definition threshold255Of :: "jsnumber \<Rightarrow> real" where
  "threshold255Of threshold =
     double (BRIGHTNESS_DIFFERENCE_THRESHOLD (Num (thresholdOperand threshold)))"

section \<open>Typed-array operations\<close>

text \<open>
  \<open>diffData d i\<close> is byte \<open>i\<close> of the buffer whose 32-bit view is \<open>d\<close>
  (little-endian, as the source's \<^verbatim>\<open>ABGR\<close> names assume).
\<close>

definition diffData :: "uint32 list \<Rightarrow> nat \<Rightarrow> int" where
  "diffData d i = uint (drop_bit (8 * (i mod 4)) (d ! (i div 4)) AND 0xff)"

text \<open>\<^verbatim>\<open>TypedArray.fill(v, start, end)\<close>: the indices outside the array are ignored.\<close>

definition fill :: "'a list \<Rightarrow> 'a \<Rightarrow> nat \<Rightarrow> nat \<Rightarrow> 'a list" where
  "fill xs v start end =
     map (\<lambda>i. if start \<le> i \<and> i < end then v else xs ! i) [0..<length xs]"

text \<open>
  \<^verbatim>\<open>target.set(source, offset)\<close>, for \<open>offset + length source \<le> length target\<close>.
  The rows of the loop stay within a canvas of \<open>width * 3 * height\<close> words
  (\<open>y < height\<close>), so the source's calls are of this kind and none raises
  \<^verbatim>\<open>RangeError\<close>.
\<close>

definition setAt :: "'a list \<Rightarrow> 'a list \<Rightarrow> nat \<Rightarrow> 'a list" where
  "setAt target source offset =
     map (\<lambda>i. if offset \<le> i \<and> i < offset + length source then source ! (i - offset)
               else target ! i) [0..<length target]"

text \<open>\<^verbatim>\<open>new Uint32Array(buffer, offset32 * 4, width)\<close>: a view of \<open>width\<close> words.\<close>

definition subarray :: "'a list \<Rightarrow> nat \<Rightarrow> nat \<Rightarrow> 'a list" where
  "subarray xs offset32 w = take w (drop offset32 xs)"

section \<open>The diff engine\<close>

text \<open>The variables that \<^verbatim>\<open>diffImagesAsync\<close> sets up before its loop and then only reads.\<close>

record Prepared =
  width :: nat
  height :: nat
  imagesCount :: nat
  baselineData32 :: "uint32 list option"
  candidateData32 :: "uint32 list option"
  baselineOffsetStart32 :: nat
  candidateOffsetStart32 :: nat
  baselineOffsetIncrement32 :: nat
  candidateOffsetIncrement32 :: nat
  threshold255 :: real

text \<open>The variables that the loop updates.\<close>

record State =
  diffData32 :: "uint32 list"
  mismatchedPixels :: int
  diffHash :: int
  diffHashStartIndex :: int
  baselineOffset32 :: nat
  candidateOffset32 :: nat

definition missingOneImage :: "Prepared \<Rightarrow> bool" where
  "missingOneImage e = (imagesCount e = 1)"

text \<open>\<^verbatim>\<open>(abgr >> 3) & 0x001f1f1f\<close>; \<^verbatim>\<open>>>\<close> is the sign-propagating shift.\<close>

definition BGRShifted :: "uint32 \<Rightarrow> uint32" where
  "BGRShifted abgr = signed_drop_bit 3 abgr AND 0x001f1f1f"

text \<open>
  Lines 196 to 208: the brightness difference of the two pixels read at \<open>x\<close>. The
  differences of two bytes and their absolute values are exact; the three coefficients
  are the doubles nearest to 0.299, 0.587 and 0.114, and each of the three products and
  of the two sums, taken from left to right, is rounded.
\<close>

definition differenceBrightness ::
  "uint32 list \<Rightarrow> uint32 \<Rightarrow> uint32 \<Rightarrow> nat \<Rightarrow> nat \<Rightarrow> real" where
  "differenceBrightness d bABGR cABGR bIndex8 cIndex8 =
     (if bABGR = cABGR then 0
      else
        fadd
          (fadd
             (fmul (double 0.299) (of_int \<bar>diffData d (bIndex8 + 1) - diffData d (cIndex8 + 1)\<bar>))
             (fmul (double 0.587) (of_int \<bar>diffData d (bIndex8 + 2) - diffData d (cIndex8 + 2)\<bar>)))
          (fmul (double 0.114) (of_int \<bar>diffData d (bIndex8 + 3) - diffData d (cIndex8 + 3)\<bar>)))"

text \<open>
  The body of the loop over \<open>x\<close> (lines 192 to 242). \<open>indexDiff32 - width\<close> never
  goes below zero: \<open>indexDiff32\<close> starts a row at \<open>y * width * 3 + width\<close>.
  The low-resolution counters (\<^verbatim>\<open>lowResHighlightData\<close>) feed the overlay pass only and
  are left out, see below.
\<close>

definition diffPixel ::
  "Prepared \<Rightarrow> nat \<Rightarrow> int \<Rightarrow> nat \<Rightarrow> nat \<Rightarrow> nat \<Rightarrow> nat \<Rightarrow> State \<Rightarrow> State" where
  "diffPixel e y diffHashIndex x indexDiff32 bIndex8 cIndex8 s =
     (let d = diffData32 s;
          bABGR = d ! (indexDiff32 - width e);
          cABGR = d ! (indexDiff32 + width e);
          bBGRShifted = BGRShifted bABGR
      in if differenceBrightness d bABGR cABGR bIndex8 cIndex8 < threshold255 e
         then s\<lparr>diffData32 := d[indexDiff32 := bBGRShifted OR 0xffe0e0e0]\<rparr>
         else
           let d1 = d[indexDiff32 := COLOR_HIGHLIGHT_ABGR];
               seeded = (diffHash s = 0);
               h = (if seeded then diffHash s + DIFF_HASH_SPREAD else diffHash s);
               start = (if seeded then diffHashIndex else diffHashStartIndex s);
               d2 = (if (word_of_nat (x + y) :: uint32) AND 1 \<noteq> 0
                     then
                       let d3 = (if cABGR \<noteq> 0xffffffff
                                 then d1[indexDiff32 - width e := bBGRShifted OR 0xff6060e0]
                                 else d1)
                       in if bABGR \<noteq> 0xffffffff
                          then d3[indexDiff32 + width e := BGRShifted cABGR OR 0xff60e060]
                          else d3
                     else d1)
           in s\<lparr>diffData32 := d2,
                 mismatchedPixels := mismatchedPixels s + 1,
                 diffHash := h + (diffHashIndex - start),
                 diffHashStartIndex := start\<rparr>)"

text \<open>
  The loop \<^verbatim>\<open>for (let x = 0; x < width; x++)\<close> with the counters it advances:
  \<open>indexDiff32\<close>, \<open>bIndex8\<close> and \<open>cIndex8\<close>. \<open>diffHashIndex\<close> is set once per
  row and not advanced.
\<close>

function diffPixels ::
  "Prepared \<Rightarrow> nat \<Rightarrow> int \<Rightarrow> nat \<Rightarrow> nat \<Rightarrow> nat \<Rightarrow> nat \<Rightarrow> State \<Rightarrow> State" where
  "diffPixels e y diffHashIndex x indexDiff32 bIndex8 cIndex8 s =
     (if x < width e
      then diffPixels e y diffHashIndex (x + 1) (indexDiff32 + 1)
             (bIndex8 + COLOR_COMPONENTS) (cIndex8 + COLOR_COMPONENTS)
             (diffPixel e y diffHashIndex x indexDiff32 bIndex8 cIndex8 s)
      else s)"
  by pat_completeness auto
termination
  by (relation "measure (\<lambda>(e, y, k, x, r). width e - x)") auto

declare diffPixels.simps [simp del]

text \<open>
  The row-copy guard \<^verbatim>\<open>data32 !== null && offset32 <= data32.length - width\<close>;
  the right-hand side can be negative.
\<close>

definition lineAvailable :: "uint32 list option \<Rightarrow> nat \<Rightarrow> nat \<Rightarrow> bool" where
  "lineAvailable data32 offset32 w =
     (case data32 of
        None \<Rightarrow> False
      | Some xs \<Rightarrow> int offset32 \<le> int (length xs) - int w)"

text \<open>
  The body of the loop over \<open>y\<close> (lines 144 to 244), in its four steps. Each takes
  \<open>indexDiff32 = y * width * 3 + width\<close>, the start of the row's centre panel.
\<close>

text \<open>Missing one image: highlight the whole diff line.\<close>

definition highlightLine :: "Prepared \<Rightarrow> nat \<Rightarrow> State \<Rightarrow> State" where
  "highlightLine e indexDiff32 s =
     (if missingOneImage e
      then s\<lparr>diffData32 := fill (diffData32 s) COLOR_HIGHLIGHT_ABGR
                               indexDiff32 (indexDiff32 + width e)\<rparr>
      else s)"

text \<open>Copy the baseline line on the left if available.\<close>

definition copyBaselineLine :: "Prepared \<Rightarrow> nat \<Rightarrow> State \<Rightarrow> State" where
  "copyBaselineLine e indexDiff32 s =
     (if lineAvailable (baselineData32 e) (baselineOffset32 s) (width e)
      then s\<lparr>diffData32 :=
                setAt (diffData32 s)
                  (subarray (the (baselineData32 e)) (baselineOffset32 s) (width e))
                  (indexDiff32 - width e),
              baselineOffset32 := baselineOffset32 s + baselineOffsetIncrement32 e\<rparr>
      else s)"

text \<open>Copy the candidate line on the right if available.\<close>

definition copyCandidateLine :: "Prepared \<Rightarrow> nat \<Rightarrow> State \<Rightarrow> State" where
  "copyCandidateLine e indexDiff32 s =
     (if lineAvailable (candidateData32 e) (candidateOffset32 s) (width e)
      then s\<lparr>diffData32 :=
                setAt (diffData32 s)
                  (subarray (the (candidateData32 e)) (candidateOffset32 s) (width e))
                  (indexDiff32 + width e),
              candidateOffset32 := candidateOffset32 s + candidateOffsetIncrement32 e\<rparr>
      else s)"

text \<open>Diff the pixels on that line if both images are available.\<close>

definition diffLine :: "Prepared \<Rightarrow> nat \<Rightarrow> nat \<Rightarrow> State \<Rightarrow> State" where
  "diffLine e y indexDiff32 s =
     (if baselineData32 e \<noteq> None \<and> candidateData32 e \<noteq> None
      then diffPixels e y (int y * DIFF_HASH_SPREAD) 0 indexDiff32
             ((indexDiff32 - width e) * COLOR_COMPONENTS)
             ((indexDiff32 + width e) * COLOR_COMPONENTS) s
      else s)"

definition diffRow :: "Prepared \<Rightarrow> nat \<Rightarrow> State \<Rightarrow> State" where
  "diffRow e y s =
     (let indexDiff32 = y * width e * 3 + width e
      in diffLine e y indexDiff32
           (copyCandidateLine e indexDiff32
              (copyBaselineLine e indexDiff32
                 (highlightLine e indexDiff32 s))))"

text \<open>The loop \<^verbatim>\<open>for (let y = 0; y < height; y++)\<close>.\<close>

definition diffRows :: "Prepared \<Rightarrow> State \<Rightarrow> State" where
  "diffRows e s = foldl (\<lambda>s y. diffRow e y s) s [0..<height e]"

text \<open>
  Lines 81 to 121: threshold, comparison bounds, and the buffers, offsets and
  increments of the images that are present. A side takes part when
  \<^verbatim>\<open>image && info\<close> holds; \<open>present\<close> gives its image and viewport then.
\<close>

definition present :: "ImageAndTestInformation \<Rightarrow> (Image \<times> Viewport) option" where
  "present i =
     (case image i of
        None \<Rightarrow> None
      | Some img \<Rightarrow> (case info i of None \<Rightarrow> None | Some ti \<Rightarrow> Some (img, ti_viewport ti)))"

definition prepare ::
  "ImageAndTestInformation \<Rightarrow> ImageAndTestInformation \<Rightarrow> jsnumber \<Rightarrow> Prepared" where
  "prepare baseline candidate threshold =
     (let b = present baseline;
          c = present candidate;
          width0 = (case b of None \<Rightarrow> 0 | Some (img, v) \<Rightarrow> vp_width v);
          height0 = (case b of None \<Rightarrow> 0 | Some (img, v) \<Rightarrow> vp_height v)
      in \<lparr>width = (case c of None \<Rightarrow> width0 | Some (img, v) \<Rightarrow> max width0 (vp_width v)),
          height = (case c of None \<Rightarrow> height0 | Some (img, v) \<Rightarrow> max height0 (vp_height v)),
          imagesCount = (case b of None \<Rightarrow> 0 | Some _ \<Rightarrow> 1) + (case c of None \<Rightarrow> 0 | Some _ \<Rightarrow> 1),
          baselineData32 = map_option (\<lambda>(img, v). img_data32 img) b,
          candidateData32 = map_option (\<lambda>(img, v). img_data32 img) c,
          baselineOffsetStart32 =
            (case b of None \<Rightarrow> 0 | Some (img, v) \<Rightarrow> vp_x v + vp_y v * img_width img),
          candidateOffsetStart32 =
            (case c of None \<Rightarrow> 0 | Some (img, v) \<Rightarrow> vp_x v + vp_y v * img_width img),
          baselineOffsetIncrement32 = (case b of None \<Rightarrow> 0 | Some (img, v) \<Rightarrow> img_width img),
          candidateOffsetIncrement32 = (case c of None \<Rightarrow> 0 | Some (img, v) \<Rightarrow> img_width img),
          threshold255 = threshold255Of threshold\<rparr>)"

text \<open>
  Line 124, \<^verbatim>\<open>new PNG({width: width * 3, height})\<close>. The constructor belongs to the
  library \<^verbatim>\<open>pngjs\<close>, which is not part of the source at hand, and is modelled after
  the library: it coerces both numbers to 32-bit integers (\<^verbatim>\<open>options.width | 0\<close>), and
  its \<^verbatim>\<open>data\<close> is a zero-filled buffer of four bytes per pixel when both are
  positive and \<^verbatim>\<open>null\<close> otherwise. The allocation of the buffer is taken to succeed.
  For a width and a height below \<open>2^31\<close> the coercion changes nothing and the buffer
  holds the \<open>width * 3 * height\<close> pixels that the loop addresses. The statements
  below are about diff images with a buffer of fewer than \<open>2^30\<close> bytes
  (\<open>canvasFits\<close>), a length that every version of Node accepts for a buffer.
\<close>

definition toInt32 :: "nat \<Rightarrow> int" where
  "toInt32 n = (int n + 2 ^ 31) mod 2 ^ 32 - 2 ^ 31"

record PNG =
  png_width :: int
  png_height :: int
  png_data :: "uint32 list option"

definition newPNG :: "nat \<Rightarrow> nat \<Rightarrow> PNG" where
  "newPNG w h =
     (let w' = toInt32 w; h' = toInt32 h
      in \<lparr>png_width = w', png_height = h',
          png_data = (if 0 < w' \<and> 0 < h' then Some (replicate (nat w' * nat h') 0) else None)\<rparr>)"

text \<open>
  Lines 126 to 141, for the 32-bit view \<open>buffer32\<close> of the buffer of the diff image.
  \<^verbatim>\<open>MISSING_BASELINE\<close> and \<^verbatim>\<open>MISSING_CANDIDATE\<close> are imported from \<^verbatim>\<open>./types\<close>,
  which is not part of the source at hand: they are parameters here.
\<close>

definition initialState :: "int \<Rightarrow> int \<Rightarrow> Prepared \<Rightarrow> uint32 list \<Rightarrow> State" where
  "initialState MISSING_BASELINE MISSING_CANDIDATE e buffer32 =
     \<lparr>diffData32 = buffer32,
      mismatchedPixels =
        (if missingOneImage e
         then (if baselineData32 e = None then MISSING_BASELINE else MISSING_CANDIDATE)
         else 0),
      diffHash = 0,
      diffHashStartIndex = 0,
      baselineOffset32 = baselineOffsetStart32 e,
      candidateOffset32 = candidateOffsetStart32 e\<rparr>"

text \<open>
  What one call that returns a record produces: the record, the size of the diff image,
  and whether the diff image is written to \<^verbatim>\<open>diffImagePath\<close>. \<open>loopCanvas\<close> is the canvas as
  the main loop leaves it. The overlay pass of lines 247 to 270 changes neither returned
  number; on the canvas it rewrites pixels of the centre panel only, and among them none
  that holds the highlight colour. Its grid index is accumulated in floating point
  (\<^verbatim>\<open>indexLowRes += 1 / lowResScale\<close>), and it is not modelled: the left and right
  panels of \<open>loopCanvas\<close> and its highlighted centre pixels are those of the written
  image.
\<close>

record DiffResult =
  r_mismatchedPixels :: int
  r_diffHash :: int

record Outcome =
  returned :: DiffResult
  diffWidth :: nat
  diffHeight :: nat
  loopCanvas :: "uint32 list"
  written :: bool

text \<open>
  The call ends in one of three ways: it returns \<^verbatim>\<open>undefined\<close> (\<open>Inr None\<close>), it
  returns a record (\<open>Inr (Some out)\<close>), or it throws (\<open>Inl\<close>; the promise is rejected).
  It throws at line 126, \<^verbatim>\<open>new Uint32Array(diffData.buffer)\<close>, when the \<^verbatim>\<open>data\<close> of
  the diff image is \<^verbatim>\<open>null\<close>: reading a property of \<^verbatim>\<open>null\<close> is a \<^verbatim>\<open>TypeError\<close>.
\<close>

datatype error = TypeError

definition diffImagesAsync ::
  "int \<Rightarrow> int \<Rightarrow> ImageAndTestInformation \<Rightarrow> ImageAndTestInformation \<Rightarrow> jsnumber
     \<Rightarrow> error + Outcome option" where
  "diffImagesAsync MISSING_BASELINE MISSING_CANDIDATE baseline candidate threshold =
     (if image baseline = None \<and> image candidate = None then Inr None
      else
        let e = prepare baseline candidate threshold;
            diff = newPNG (width e * 3) (height e)
        in case png_data diff of
             None \<Rightarrow> Inl TypeError
           | Some buffer32 \<Rightarrow>
               let s = diffRows e (initialState MISSING_BASELINE MISSING_CANDIDATE e buffer32)
               in Inr (Some \<lparr>returned = \<lparr>r_mismatchedPixels = mismatchedPixels s,
                                         r_diffHash = diffHash s\<rparr>,
                             diffWidth = nat (png_width diff),
                             diffHeight = nat (png_height diff),
                             loopCanvas = diffData32 s,
                             written = (mismatchedPixels s \<noteq> 0)\<rparr>))"

section \<open>Notions used in the statements\<close>

text \<open>
  Nothing below is part of the program: these are the functions in whose terms the
  properties are stated, each related to the program by a lemma.
\<close>

subsection \<open>Pixels and their classification\<close>

text \<open>Byte \<open>k\<close> of a packed pixel: 0 is red, 1 green, 2 blue, 3 alpha.\<close>

definition channel :: "uint32 \<Rightarrow> nat \<Rightarrow> int" where
  "channel abgr k = uint (drop_bit (8 * k) abgr AND 0xff)"

text \<open>
  The brightness difference as the loop computes it, over the two packed pixels
  (lemma \<open>differenceBrightness_brightness\<close>).
\<close>

definition brightness :: "uint32 \<Rightarrow> uint32 \<Rightarrow> real" where
  "brightness b c =
     (if b = c then 0
      else
        fadd
          (fadd (fmul (double 0.299) (of_int \<bar>channel b 1 - channel c 1\<bar>))
                (fmul (double 0.587) (of_int \<bar>channel b 2 - channel c 2\<bar>)))
          (fmul (double 0.114) (of_int \<bar>channel b 3 - channel c 3\<bar>)))"

definition mismatch :: "real \<Rightarrow> uint32 \<Rightarrow> uint32 \<Rightarrow> bool" where
  "mismatch t b c = (\<not> brightness b c < t)"

text \<open>
  What the three panels hold at a position after its pixel was diffed, from the baseline
  pixel \<open>b\<close> and the candidate pixel \<open>c\<close> that the row copies had put there.
\<close>

definition leftAfter :: "real \<Rightarrow> nat \<Rightarrow> nat \<Rightarrow> uint32 \<Rightarrow> uint32 \<Rightarrow> uint32" where
  "leftAfter t y x b c =
     (if mismatch t b c \<and> odd (x + y) \<and> c \<noteq> 0xffffffff then BGRShifted b OR 0xff6060e0 else b)"

definition rightAfter :: "real \<Rightarrow> nat \<Rightarrow> nat \<Rightarrow> uint32 \<Rightarrow> uint32 \<Rightarrow> uint32" where
  "rightAfter t y x b c =
     (if mismatch t b c \<and> odd (x + y) \<and> b \<noteq> 0xffffffff then BGRShifted c OR 0xff60e060 else c)"

definition centreAfter :: "real \<Rightarrow> uint32 \<Rightarrow> uint32 \<Rightarrow> uint32" where
  "centreAfter t b c =
     (if mismatch t b c then COLOR_HIGHLIGHT_ABGR else BGRShifted b OR 0xffe0e0e0)"

subsection \<open>The diff image\<close>

text \<open>
  The canvas that the loop starts from, and the comparisons for which the constructor
  provides it: both dimensions of the diff image are positive, and its buffer of four
  bytes per pixel has fewer than \<open>2^30\<close> bytes.
\<close>

definition blankCanvas :: "Prepared \<Rightarrow> uint32 list" where
  "blankCanvas e = replicate (width e * 3 * height e) 0"

definition canvasFits :: "Prepared \<Rightarrow> bool" where
  "canvasFits e = (0 < width e \<and> 0 < height e \<and> 4 * (width e * 3 * height e) < 2 ^ 30)"

text \<open>The spacing of the doubles in the binade of \<open>x\<close>.\<close>

definition ulp :: "real \<Rightarrow> real" where
  "ulp x = 2 powi (max (exponent \<bar>x\<bar>) (- 1022) - 52)"

subsection \<open>The returned numbers\<close>

text \<open>
  The triple (\<open>mismatchedPixels\<close>, \<open>diffHash\<close>, \<open>diffHashStartIndex\<close>) of a state,
  and what one mismatch with hash index \<open>key\<close> does to it (lines 216 to 225).
\<close>

definition numbers :: "State \<Rightarrow> int \<times> int \<times> int" where
  "numbers s = (mismatchedPixels s, diffHash s, diffHashStartIndex s)"

definition hashStep :: "int \<Rightarrow> int \<times> int \<times> int \<Rightarrow> int \<times> int \<times> int" where
  "hashStep key acc =
     (case acc of (n, h, start) \<Rightarrow>
        if h = 0 then (n + 1, h + DIFF_HASH_SPREAD, key)
        else (n + 1, h + (key - start), start))"

definition rowFlags :: "real \<Rightarrow> (nat \<Rightarrow> uint32) \<Rightarrow> (nat \<Rightarrow> uint32) \<Rightarrow> int
    \<Rightarrow> int \<times> int \<times> int \<Rightarrow> nat \<Rightarrow> int \<times> int \<times> int" where
  "rowFlags t b c key acc x = (if mismatch t (b x) (c x) then hashStep key acc else acc)"

subsection \<open>The loop over \<open>x\<close> with its counters in closed form\<close>

definition pixelStep :: "Prepared \<Rightarrow> nat \<Rightarrow> nat \<Rightarrow> State \<Rightarrow> nat \<Rightarrow> State" where
  "pixelStep e y p s x =
     diffPixel e y (int y * DIFF_HASH_SPREAD) x (p + x + width e)
       ((p + x) * COLOR_COMPONENTS) ((p + x + width e + width e) * COLOR_COMPONENTS) s"

subsection \<open>The pixels that the row copies put on the canvas\<close>

text \<open>
  The offset of a side when row \<open>y\<close> starts: it advances by the increment after every
  row that was copied, and stays once the guard has failed.
\<close>

fun offsetAt :: "uint32 list option \<Rightarrow> nat \<Rightarrow> nat \<Rightarrow> nat \<Rightarrow> nat \<Rightarrow> nat" where
  "offsetAt data32 w inc start 0 = start"
| "offsetAt data32 w inc start (Suc y) =
     (if lineAvailable data32 (offsetAt data32 w inc start y) w
      then offsetAt data32 w inc start y + inc
      else offsetAt data32 w inc start y)"

text \<open>The side's pixel at column \<open>x\<close> of row \<open>y\<close>: copied, or the canvas's initial 0.\<close>

definition panelPixel :: "uint32 list option \<Rightarrow> nat \<Rightarrow> nat \<Rightarrow> nat \<Rightarrow> nat \<Rightarrow> nat \<Rightarrow> uint32" where
  "panelPixel data32 w inc start y x =
     (if lineAvailable data32 (offsetAt data32 w inc start y) w
      then the data32 ! (offsetAt data32 w inc start y + x)
      else 0)"

definition baselineOffsetAt :: "Prepared \<Rightarrow> nat \<Rightarrow> nat" where
  "baselineOffsetAt e y =
     offsetAt (baselineData32 e) (width e) (baselineOffsetIncrement32 e) (baselineOffsetStart32 e) y"

definition candidateOffsetAt :: "Prepared \<Rightarrow> nat \<Rightarrow> nat" where
  "candidateOffsetAt e y =
     offsetAt (candidateData32 e) (width e) (candidateOffsetIncrement32 e) (candidateOffsetStart32 e) y"

definition baselinePixel :: "Prepared \<Rightarrow> nat \<Rightarrow> nat \<Rightarrow> uint32" where
  "baselinePixel e y x =
     panelPixel (baselineData32 e) (width e) (baselineOffsetIncrement32 e) (baselineOffsetStart32 e) y x"

definition candidatePixel :: "Prepared \<Rightarrow> nat \<Rightarrow> nat \<Rightarrow> uint32" where
  "candidatePixel e y x =
     panelPixel (candidateData32 e) (width e) (candidateOffsetIncrement32 e) (candidateOffsetStart32 e) y x"

definition rowNumbers :: "Prepared \<Rightarrow> int \<times> int \<times> int \<Rightarrow> nat \<Rightarrow> int \<times> int \<times> int" where
  "rowNumbers e acc y =
     foldl (rowFlags (threshold255 e) (baselinePixel e y) (candidatePixel e y)
              (int y * DIFF_HASH_SPREAD)) acc [0..<width e]"

text \<open>The state after the two row copies of row \<open>y\<close>.\<close>

definition copied :: "Prepared \<Rightarrow> nat \<Rightarrow> State \<Rightarrow> State" where
  "copied e y s =
     copyCandidateLine e (y * width e * 3 + width e)
       (copyBaselineLine e (y * width e * 3 + width e) s)"

text \<open>
  The invariant of the loop over \<open>y\<close> when row \<open>y\<close> starts: the rows from \<open>y\<close> on
  are still zero and the offsets are those of \<open>offsetAt\<close>. \<open>panelsDone\<close> describes a
  finished row.
\<close>

definition canvasInv :: "Prepared \<Rightarrow> nat \<Rightarrow> State \<Rightarrow> bool" where
  "canvasInv e y s =
     (length (diffData32 s) = width e * 3 * height e \<and>
      (\<forall>j. y * width e * 3 \<le> j \<longrightarrow> j < length (diffData32 s) \<longrightarrow> diffData32 s ! j = 0) \<and>
      baselineOffset32 s = baselineOffsetAt e y \<and>
      candidateOffset32 s = candidateOffsetAt e y)"

definition panelsDone :: "Prepared \<Rightarrow> nat \<Rightarrow> uint32 list \<Rightarrow> bool" where
  "panelsDone e y d =
     (\<forall>x<width e.
        d ! (y * width e * 3 + x) =
          leftAfter (threshold255 e) y x (baselinePixel e y x) (candidatePixel e y x) \<and>
        d ! (y * width e * 3 + x + width e) =
          centreAfter (threshold255 e) (baselinePixel e y x) (candidatePixel e y x) \<and>
        d ! (y * width e * 3 + x + width e + width e) =
          rightAfter (threshold255 e) y x (baselinePixel e y x) (candidatePixel e y x))"

subsection \<open>The mismatched positions in scan order\<close>

definition positions :: "nat \<Rightarrow> nat \<Rightarrow> (nat \<times> nat) list" where
  "positions w h = concat (map (\<lambda>y. map (Pair y) [0..<w]) [0..<h])"

definition mismatchAt :: "Prepared \<Rightarrow> nat \<times> nat \<Rightarrow> bool" where
  "mismatchAt e p =
     mismatch (threshold255 e) (baselinePixel e (fst p) (snd p)) (candidatePixel e (fst p) (snd p))"

definition mismatches :: "Prepared \<Rightarrow> (nat \<times> nat) list" where
  "mismatches e = filter (mismatchAt e) (positions (width e) (height e))"

definition hashKey :: "nat \<times> nat \<Rightarrow> int" where
  "hashKey p = int (fst p) * DIFF_HASH_SPREAD"

definition hashAll :: "(nat \<times> nat) list \<Rightarrow> int \<times> int \<times> int" where
  "hashAll ms = foldl (\<lambda>acc p. hashStep (hashKey p) acc) (0, 0, 0) ms"

subsection \<open>The specification's formulas\<close>

text \<open>\<open>clamp(v, lo, hi)\<close> of section 4.2 of the specification.\<close>

definition clamp :: "real \<Rightarrow> real \<Rightarrow> real \<Rightarrow> real" where
  "clamp v lo hi = min hi (max lo v)"

text \<open>
  The specification's brightness difference, \<open>0.299*|\<Delta>R| + 0.587*|\<Delta>G| + 0.114*|\<Delta>B|\<close>
  with alpha excluded, which is also what the comment of lines 199 to 203 describes.
\<close>

definition specBrightness :: "uint32 \<Rightarrow> uint32 \<Rightarrow> real" where
  "specBrightness b c =
     0.299 * of_int \<bar>channel b 0 - channel c 0\<bar> +
     0.587 * of_int \<bar>channel b 1 - channel c 1\<bar> +
     0.114 * of_int \<bar>channel b 2 - channel c 2\<bar>"

text \<open>
  The reference computation of section 4.4 of the specification over the mismatched
  pixels in scan order, each given as its row \<open>y\<close> and its per-row counter \<open>x'\<close>
  (here the column): \<open>key = y * SPREAD + x'\<close>; the first mismatch seeds the hash with
  \<open>SPREAD\<close> and records its key as \<open>start\<close>; every later one adds \<open>key - start\<close>.
\<close>

definition specKey :: "nat \<times> nat \<Rightarrow> int" where
  "specKey p = int (fst p) * DIFF_HASH_SPREAD + int (snd p)"

definition specDiffHash :: "(nat \<times> nat) list \<Rightarrow> int" where
  "specDiffHash ms =
     (case ms of
        [] \<Rightarrow> 0
      | p # rest \<Rightarrow> DIFF_HASH_SPREAD + (\<Sum>q\<leftarrow>rest. specKey q - specKey p))"

subsection \<open>Inputs\<close>

text \<open>
  What \<^verbatim>\<open>getImageAndTestInformation\<close> resolves to: for a path that does not exist,
  neither image nor information (\<open>absent\<close>); for an image without a sidecar file, the
  image with the viewport of lines 44 to 56, which covers the whole image (\<open>fullFrame\<close>).
\<close>

definition absent :: ImageAndTestInformation where
  "absent = \<lparr>image = None, info = None\<rparr>"

definition fullFrame :: "string \<Rightarrow> nat \<Rightarrow> nat \<Rightarrow> uint32 list \<Rightarrow> ImageAndTestInformation" where
  "fullFrame imageFileName w h data32 =
     \<lparr>image = Some \<lparr>img_width = w, img_height = h, img_data32 = data32\<rparr>,
      info = Some \<lparr>ti_name = imageFileName,
                    ti_viewport = \<lparr>vp_x = 0, vp_y = 0, vp_width = w, vp_height = h, vp_scale = 1\<rparr>\<rparr>\<rparr>"

text \<open>An image with a sidecar file, whose viewport is the one that the file gives.\<close>

definition withSidecar ::
  "string \<Rightarrow> nat \<Rightarrow> nat \<Rightarrow> uint32 list \<Rightarrow> Viewport \<Rightarrow> ImageAndTestInformation" where
  "withSidecar testName w h data32 viewport =
     \<lparr>image = Some \<lparr>img_width = w, img_height = h, img_data32 = data32\<rparr>,
      info = Some \<lparr>ti_name = testName, ti_viewport = viewport\<rparr>\<rparr>"

text \<open>Packed pixels from their bytes, as the decoders store them.\<close>

definition rgba :: "uint32 \<Rightarrow> uint32 \<Rightarrow> uint32 \<Rightarrow> uint32 \<Rightarrow> uint32" where
  "rgba r g b a = r + 256 * g + 65536 * b + 16777216 * a"

subsection \<open>The centre panel\<close>

text \<open>Every pixel of the centre panel of the canvas holds the highlight colour.\<close>

definition centreHighlighted :: "Outcome \<Rightarrow> bool" where
  "centreHighlighted out =
     list_all (\<lambda>y. list_all (\<lambda>x. loopCanvas out ! (y * diffWidth out + diffWidth out div 3 + x) =
                                    COLOR_HIGHLIGHT_ABGR) [0..<diffWidth out div 3])
       [0..<diffHeight out]"

section \<open>Rounding to doubles\<close>

subsection \<open>The binade and the rounding of a quotient\<close>

lemma binadeUp_bounds: "1 \<le> x \<Longrightarrow> 2 powi binadeUp x \<le> x \<and> x < 2 powi (binadeUp x + 1)"
proof (induction x rule: binadeUp.induct)
  case (1 x)
  show ?case
  proof (cases "2 \<le> x")
    case True
    then have "2 powi binadeUp (x / 2) \<le> x / 2 \<and> x / 2 < 2 powi (binadeUp (x / 2) + 1)"
      using 1 by simp
    then show ?thesis
      using True by (subst (1 2) binadeUp.simps) (simp add: power_int_add)
  next
    case False
    then show ?thesis using 1(2) by (subst (1 2) binadeUp.simps) simp
  qed
qed

lemma binadeDown_bounds:
  "0 < x \<Longrightarrow> x < 1 \<Longrightarrow> 2 powi binadeDown x \<le> x \<and> x < 2 powi (binadeDown x + 1)"
proof (induction x rule: binadeDown.induct)
  case (1 x)
  show ?case
  proof (cases "2 * x < 1")
    case True
    then have "2 powi binadeDown (2 * x) \<le> 2 * x \<and> 2 * x < 2 powi (binadeDown (2 * x) + 1)"
      using 1 by simp
    then show ?thesis
      using 1(2,3) by (subst (1 2) binadeDown.simps) (simp add: power_int_diff power_int_add)
  next
    case False
    then have "binadeDown (2 * x) = 0"
      by (subst binadeDown.simps) simp
    then show ?thesis using 1(2,3) False by (subst (1 2) binadeDown.simps) (simp add: power_int_minus)
  qed
qed

lemma exponent_bounds:
  "0 < x \<Longrightarrow> 2 powi exponent x \<le> x \<and> x < 2 powi (exponent x + 1)"
  using binadeUp_bounds [of x] binadeDown_bounds [of x] by (simp add: exponent_def)

lemma pow2_less_cancel: "(2::real) powi m < 2 powi n \<Longrightarrow> m < n"
  using power_int_increasing [of n m "2::real"] by (cases "m < n") simp_all

lemma exponent_unique:
  assumes "0 < x" and "2 powi e \<le> x" and "x < 2 powi (e + 1)"
  shows "exponent x = e"
proof -
  from exponent_bounds [OF assms(1)] assms(2,3)
  have "(2::real) powi exponent x < 2 powi (e + 1)" "(2::real) powi e < 2 powi (exponent x + 1)"
    by linarith+
  from pow2_less_cancel [OF this(1)] pow2_less_cancel [OF this(2)]
  show ?thesis by simp
qed

lemma exponent_mono:
  assumes "0 < x" and "x \<le> y"
  shows "exponent x \<le> exponent y"
proof -
  from assms have "0 < y" by simp
  from exponent_bounds [OF assms(1)] exponent_bounds [OF this] assms(2)
  have "(2::real) powi exponent x < 2 powi (exponent y + 1)" by linarith
  then have "exponent x < exponent y + 1" by (rule pow2_less_cancel)
  then show ?thesis by simp
qed

lemma roundTiesToEven_floor: "\<lfloor>r\<rfloor> \<le> roundTiesToEven r" "roundTiesToEven r \<le> \<lfloor>r\<rfloor> + 1"
  by (simp_all add: roundTiesToEven_def Let_def)

lemma roundTiesToEven_of_int [simp]: "roundTiesToEven (of_int n) = n"
  by (simp add: roundTiesToEven_def)

lemma roundTiesToEven_near: "\<bar>of_int (roundTiesToEven r) - r\<bar> \<le> 1 / 2"
  unfolding roundTiesToEven_def Let_def by (auto simp: abs_le_iff)

lemma roundTiesToEven_mono:
  assumes "r \<le> s"
  shows "roundTiesToEven r \<le> roundTiesToEven s"
proof (cases "\<lfloor>r\<rfloor> = \<lfloor>s\<rfloor>")
  case True
  then show ?thesis using assms by (simp add: roundTiesToEven_def Let_def)
next
  case False
  then have "\<lfloor>r\<rfloor> + 1 \<le> \<lfloor>s\<rfloor>"
    using floor_mono [OF assms] by simp
  then show ?thesis
    using roundTiesToEven_floor(2) [of r] roundTiesToEven_floor(1) [of s] by simp
qed

lemma ulp_pos: "0 < ulp x"
  by (simp add: ulp_def)

lemma double_ulp: "0 < x \<Longrightarrow> double x = of_int (roundTiesToEven (x / ulp x)) * ulp x"
  by (simp add: double_def ulp_def Let_def)

text \<open>A double is a multiple of the spacing, at most half a spacing away.\<close>

lemma double_near:
  assumes "0 < x"
  shows "\<bar>double x - x\<bar> \<le> ulp x / 2"
proof -
  have "double x - x = (of_int (roundTiesToEven (x / ulp x)) - x / ulp x) * ulp x"
    using ulp_pos [of x] by (simp add: double_ulp [OF assms] left_diff_distrib)
  then have "\<bar>double x - x\<bar> = \<bar>of_int (roundTiesToEven (x / ulp x)) - x / ulp x\<bar> * ulp x"
    using ulp_pos [of x] by (simp add: abs_mult)
  also have "\<dots> \<le> 1 / 2 * ulp x"
    using roundTiesToEven_near [of "x / ulp x"] ulp_pos [of x]
    by (intro mult_right_mono) simp_all
  finally show ?thesis by simp
qed

lemma double_zero [simp]: "double 0 = 0"
  by (simp add: double_def)

lemma double_nonneg: "0 \<le> x \<Longrightarrow> 0 \<le> double x"
proof (cases "x = 0")
  case False
  assume "0 \<le> x"
  with False have x: "0 < x" by simp
  have "0 \<le> x / ulp x" using x ulp_pos [of x] by simp
  then have "roundTiesToEven 0 \<le> roundTiesToEven (x / ulp x)"
    by (rule roundTiesToEven_mono)
  then have "0 \<le> roundTiesToEven (x / ulp x)"
    using roundTiesToEven_of_int [of 0] by simp
  then show ?thesis using ulp_pos [of x] by (simp add: double_ulp [OF x])
qed simp

lemma double_binade:
  assumes "0 < x" and "e = max (exponent x) (- 1022)"
  shows "x < 2 powi (e + 1)" and "double x \<le> 2 powi (e + 1)"
    and "exponent x = e \<Longrightarrow> 2 powi e \<le> double x"
proof -
  have u: "ulp x = 2 powi (e - 52)" "0 < ulp x"
    using assms by (simp_all add: ulp_def)
  have "x < 2 powi (exponent x + 1)"
    using exponent_bounds [OF assms(1)] by simp
  also have "\<dots> \<le> 2 powi (e + 1)"
    using assms(2) by (intro power_int_increasing) simp_all
  finally show x: "x < 2 powi (e + 1)" .
  have p: "(2::real) powi (e + 1) = 2 ^ 53 * 2 powi (e - 52)"
    using power_int_add [of "2::real" 53 "e - 52"] by (simp add: ac_simps)
  have q: "(2::real) powi e = 2 ^ 52 * 2 powi (e - 52)"
    using power_int_add [of "2::real" 52 "e - 52"] by simp
  have "x / ulp x \<le> of_int (2 ^ 53)"
    using x u by (simp add: p pos_divide_le_eq)
  then have "roundTiesToEven (x / ulp x) \<le> roundTiesToEven (of_int (2 ^ 53))"
    by (rule roundTiesToEven_mono)
  then have "roundTiesToEven (x / ulp x) \<le> 2 ^ 53"
    by (simp only: roundTiesToEven_of_int)
  then have "of_int (roundTiesToEven (x / ulp x)) \<le> (2 ^ 53 :: real)"
    by (metis of_int_le_iff of_int_numeral of_int_power)
  then show "double x \<le> 2 powi (e + 1)"
    using u(2) by (simp add: double_ulp [OF assms(1)] p u(1))
  show "2 powi e \<le> double x" if "exponent x = e"
  proof -
    have "2 powi e \<le> x"
      using exponent_bounds [OF assms(1)] that by simp
    then have "of_int (2 ^ 52) \<le> x / ulp x"
      using u by (simp add: q pos_le_divide_eq)
    then have "roundTiesToEven (of_int (2 ^ 52)) \<le> roundTiesToEven (x / ulp x)"
      by (rule roundTiesToEven_mono)
    then have "2 ^ 52 \<le> roundTiesToEven (x / ulp x)"
      by (simp only: roundTiesToEven_of_int)
    then have "(2 ^ 52 :: real) \<le> of_int (roundTiesToEven (x / ulp x))"
      by (metis of_int_le_iff of_int_numeral of_int_power)
    then show ?thesis
      using u(2) by (simp add: double_ulp [OF assms(1)] q u(1))
  qed
qed

lemma double_mono:
  assumes "0 \<le> x" and "x \<le> y"
  shows "double x \<le> double y"
proof (cases "x = 0")
  case True
  then show ?thesis using double_nonneg [of y] assms by simp
next
  case False
  with assms have x: "0 < x" and y: "0 < y" by simp_all
  define ex where "ex = max (exponent x) (- 1022)"
  define ey where "ey = max (exponent y) (- 1022)"
  have le: "ex \<le> ey"
    using exponent_mono [OF x assms(2)] by (simp add: ex_def ey_def)
  show ?thesis
  proof (cases "ex = ey")
    case True
    then have u: "ulp x = ulp y"
      using x y by (simp add: ulp_def ex_def ey_def)
    have "x / ulp y \<le> y / ulp y"
      using assms(2) ulp_pos [of y] by (simp add: divide_right_mono)
    then have "roundTiesToEven (x / ulp y) \<le> roundTiesToEven (y / ulp y)"
      by (rule roundTiesToEven_mono)
    then show ?thesis
      using ulp_pos [of y] by (simp add: double_ulp [OF x] double_ulp [OF y] u)
  next
    case False
    with le have lt: "ex + 1 \<le> ey" by simp
    then have "exponent y = ey" by (simp add: ey_def ex_def)
    then have "2 powi ey \<le> double y"
      by (rule double_binade(3) [OF y ey_def])
    moreover have "double x \<le> 2 powi (ex + 1)"
      by (rule double_binade(2) [OF x ex_def])
    moreover have "(2::real) powi (ex + 1) \<le> 2 powi ey"
      using lt by (intro power_int_increasing) simp_all
    ultimately show ?thesis by linarith
  qed
qed

text \<open>A positive double is at least the least subnormal number, and the product of
  such a number with a number from 1 on is not rounded to zero.\<close>

lemma double_least:
  assumes "0 < double x" and "0 \<le> x"
  shows "2 powi (- 1074) \<le> double x"
proof -
  from assms have x: "0 < x" by (cases "x = 0") simp_all
  have "0 < of_int (roundTiesToEven (x / ulp x)) * ulp x"
    using assms(1) by (simp add: double_ulp [OF x])
  then have "0 < roundTiesToEven (x / ulp x)"
    using ulp_pos [of x] by (simp add: zero_less_mult_iff)
  then have "(1::real) \<le> of_int (roundTiesToEven (x / ulp x))" by linarith
  then have "ulp x \<le> double x"
    using ulp_pos [of x] by (simp add: double_ulp [OF x])
  moreover have "(2::real) powi (- 1074) \<le> ulp x"
    unfolding ulp_def by (intro power_int_increasing) simp_all
  ultimately show ?thesis by linarith
qed

lemma double_positive:
  assumes "2 powi (- 1074) \<le> x"
  shows "0 < double x"
proof -
  have x: "0 < x"
    using assms zero_less_power_int [of "2::real" "- 1074"] by linarith
  define e where "e = max (exponent x) (- 1022)"
  show ?thesis
  proof (cases "exponent x = e")
    case True
    then have "2 powi e \<le> double x"
      by (rule double_binade(3) [OF x e_def])
    then show ?thesis
      using zero_less_power_int [of "2::real" e] by linarith
  next
    case False
    then have u: "ulp x = 2 powi (- 1074)"
      using x by (simp add: ulp_def e_def max_def split: if_splits)
    then have "of_int 1 \<le> x / ulp x"
      using assms ulp_pos [of x] by (simp add: pos_le_divide_eq)
    then have "roundTiesToEven (of_int 1) \<le> roundTiesToEven (x / ulp x)"
      by (rule roundTiesToEven_mono)
    then have "0 < roundTiesToEven (x / ulp x)"
      by (simp only: roundTiesToEven_of_int)
    then show ?thesis
      using ulp_pos [of x] by (simp add: double_ulp [OF x])
  qed
qed

lemma double_eval:
  assumes "0 < x" and "2 powi e \<le> x" and "x < 2 powi (e + 1)" and "- 1022 \<le> e"
  shows "double x = of_int (roundTiesToEven (x / 2 powi (e - 52))) * 2 powi (e - 52)"
  using exponent_unique [OF assms(1-3)] assms(1,4) by (simp add: double_ulp ulp_def)


text \<open>Evaluation of the model on numbers that are given.\<close>

lemmas double_simps = double_def exponent_def binadeUp.simps binadeDown.simps
  roundTiesToEven_def Let_def power_int_minus fmul_def fadd_def

lemma double_one [simp]: "double 1 = 1"
  by (simp add: double_simps)

lemma double_DEFAULT_THRESHOLD: "double DEFAULT_THRESHOLD = 8646911284551352 / 2 ^ 58"
  by (simp add: DEFAULT_THRESHOLD_def double_simps)

subsection \<open>The threshold as a double\<close>

lemma thresholdOperand_pos_or:
  "thresholdOperand t = double DEFAULT_THRESHOLD \<or>
   (\<exists>v. t = Num v \<and> double v \<noteq> 0 \<and> thresholdOperand t = double v)"
  by (cases t) (simp_all add: thresholdOperand_def)

lemma thresholdOperand_nonzero: "thresholdOperand t \<noteq> 0"
  using thresholdOperand_pos_or [of t] by (auto simp: double_DEFAULT_THRESHOLD)

lemma threshold255_product:
  "BRIGHTNESS_DIFFERENCE_THRESHOLD (Num (thresholdOperand t)) =
     255 * min 1 (max 0 (thresholdOperand t))"
  by (simp add: BRIGHTNESS_DIFFERENCE_THRESHOLD_def thresholdOperand_nonzero)

lemma threshold255Of_direct:
  "threshold255Of t = double (255 * min 1 (max 0 (thresholdOperand t)))"
  by (simp add: threshold255Of_def threshold255_product)

lemma double_clamped:
  assumes "0 \<le> v" and "v \<le> 1"
  shows "0 \<le> double v" and "double v \<le> 1"
  using double_mono [OF assms] double_nonneg [OF assms(1)] by simp_all

lemma threshold255Of_positive:
  assumes "0 \<le> v"
  shows "0 < threshold255Of (Num v)"
proof -
  have least: "2 powi (- 1074) \<le> thresholdOperand (Num v)"
  proof (cases "double v = 0")
    case True
    have "(2::real) powi (- 1074) \<le> 2 powi (- 6)"
      by (intro power_int_increasing) simp_all
    then show ?thesis
      using True by (simp add: thresholdOperand_def double_DEFAULT_THRESHOLD power_int_minus)
  next
    case False
    then have "0 < double v"
      using double_nonneg [OF assms] by simp
    then show ?thesis
      using False double_least [OF _ assms] by (simp add: thresholdOperand_def)
  qed
  have tiny: "(2::real) powi (- 1074) \<le> 1"
    using power_int_increasing [of "- 1074" 0 "2::real"] by simp
  have "2 powi (- 1074) \<le> 255 * min 1 (max 0 (thresholdOperand (Num v)))"
    using least tiny zero_less_power_int [of "2::real" "- 1074"]
    by (simp add: min_def max_def)
  then show ?thesis
    unfolding threshold255Of_direct by (rule double_positive)
qed

lemma threshold255Of_mono:
  assumes "0 \<le> t1" and "t1 \<le> t2" and "double t1 \<noteq> 0 \<or> 3 / 100 \<le> t2"
  shows "threshold255Of (Num t1) \<le> threshold255Of (Num t2)"
proof -
  have d: "0 \<le> double t1" "double t1 \<le> double t2"
    using double_nonneg [OF assms(1)] double_mono [OF assms(1,2)] by simp_all
  have "thresholdOperand (Num t1) \<le> thresholdOperand (Num t2)"
  proof (cases "double t1 = 0")
    case False
    then show ?thesis using d by (simp add: thresholdOperand_def)
  next
    case True
    with assms(3) have "3 / 100 \<le> t2" by simp
    then have "double (3 / 100) \<le> double t2"
      by (intro double_mono) simp_all
    then show ?thesis
      using True by (auto simp: thresholdOperand_def DEFAULT_THRESHOLD_def)
  qed
  then have "255 * min 1 (max 0 (thresholdOperand (Num t1))) \<le>
      255 * min 1 (max 0 (thresholdOperand (Num t2)))"
    by (simp add: min_def max_def)
  moreover have "0 \<le> 255 * min 1 (max 0 (thresholdOperand (Num t1)))"
    by (simp add: min_def max_def)
  ultimately show ?thesis
    unfolding threshold255Of_direct by (intro double_mono)
qed

lemma threshold255Of_default:
  "threshold255Of (Num (3 / 100)) = 8613134287346073 / 2 ^ 50"
  "threshold255Of (Num 0) = 8613134287346073 / 2 ^ 50"
  "threshold255Of NaN = 8613134287346073 / 2 ^ 50"
  "threshold255Of Undefined = 8613134287346073 / 2 ^ 50"
  by (simp_all add: threshold255Of_direct thresholdOperand_def DEFAULT_THRESHOLD_def double_simps)

subsection \<open>The diff image\<close>

lemma toInt32_small: "n < 2 ^ 31 \<Longrightarrow> toInt32 n = int n"
  by (simp add: toInt32_def)

lemma newPNG_fits:
  assumes "canvasFits e"
  shows "newPNG (width e * 3) (height e) =
     \<lparr>png_width = int (width e * 3), png_height = int (height e),
      png_data = Some (blankCanvas e)\<rparr>"
proof -
  from assms have pos: "0 < width e" "0 < height e"
    and size: "4 * (width e * 3 * height e) < 2 ^ 30"
    by (simp_all add: canvasFits_def)
  define n where "n = width e * 3 * height e"
  have le: "width e * 3 \<le> n" "height e \<le> n"
    using pos by (simp_all add: n_def)
  have "4 * n < 2 ^ 30"
    using size by (simp only: n_def)
  then have n: "n < 2 ^ 31"
    by simp
  have "width e * 3 < 2 ^ 31" "height e < 2 ^ 31"
    using le_less_trans [OF le(1) n] le_less_trans [OF le(2) n] by simp_all
  then have "toInt32 (width e * 3) = int (width e * 3)" "toInt32 (height e) = int (height e)"
    by (simp_all add: toInt32_small)
  then show ?thesis
    using pos by (simp add: newPNG_def blankCanvas_def Let_def nat_mult_distrib)
qed

lemma newPNG_null:
  assumes "w = 0 \<or> h = 0"
  shows "png_data (newPNG (w * 3) h) = None"
  using assms by (auto simp: newPNG_def toInt32_def)

section \<open>The loop and the canvas\<close>

subsection \<open>Typed arrays\<close>

lemma length_fill [simp]: "length (fill xs v a b) = length xs"
  by (simp add: fill_def)

lemma nth_fill: "i < length xs \<Longrightarrow> fill xs v a b ! i = (if a \<le> i \<and> i < b then v else xs ! i)"
  by (simp add: fill_def)

lemma length_setAt [simp]: "length (setAt t src p) = length t"
  by (simp add: setAt_def)

lemma nth_setAt:
  "i < length t \<Longrightarrow> setAt t src p ! i = (if p \<le> i \<and> i < p + length src then src ! (i - p) else t ! i)"
  by (simp add: setAt_def)

lemma diffData_channel: "k < 4 \<Longrightarrow> diffData d (i * COLOR_COMPONENTS + k) = channel (d ! i) k"
  by (simp add: diffData_def channel_def COLOR_COMPONENTS_def)

lemma differenceBrightness_brightness:
  "differenceBrightness d (d ! i) (d ! j) (i * COLOR_COMPONENTS) (j * COLOR_COMPONENTS)
     = brightness (d ! i) (d ! j)"
  unfolding differenceBrightness_def brightness_def
  using diffData_channel [of 1 d i] diffData_channel [of 2 d i] diffData_channel [of 3 d i]
    diffData_channel [of 1 d j] diffData_channel [of 2 d j] diffData_channel [of 3 d j]
  by simp

lemma parity_word: "((word_of_nat n :: uint32) AND 1 \<noteq> 0) = odd n"
  apply (simp add: and_one_eq)
  using even_of_nat odd_iff_mod_2_eq_one by blast

lemma parity_word_add: "((word_of_nat x + word_of_nat y :: uint32) AND 1 \<noteq> 0) = odd (x + y)"
  using parity_word [of "x + y"] by simp

subsection \<open>One pixel\<close>

lemma diffPixel_length:
  "length (diffData32 (diffPixel e y k x i b8 c8 s)) = length (diffData32 s)"
  by (simp add: diffPixel_def Let_def)

lemma diffPixel_offsets:
  "baselineOffset32 (diffPixel e y k x i b8 c8 s) = baselineOffset32 s"
  "candidateOffset32 (diffPixel e y k x i b8 c8 s) = candidateOffset32 s"
  by (simp_all add: diffPixel_def Let_def)

lemma diffPixel_frame:
  "j \<noteq> i - width e \<Longrightarrow> j \<noteq> i \<Longrightarrow> j \<noteq> i + width e \<Longrightarrow>
     diffData32 (diffPixel e y k x i b8 c8 s) ! j = diffData32 s ! j"
  by (simp add: diffPixel_def Let_def)

lemma diffPixel_numbers:
  "numbers (diffPixel e y key x (q + width e) (q * COLOR_COMPONENTS)
       ((q + width e + width e) * COLOR_COMPONENTS) s) =
     (if mismatch (threshold255 e) (diffData32 s ! q) (diffData32 s ! (q + width e + width e))
      then hashStep key (numbers s) else numbers s)"
  using differenceBrightness_brightness [of "diffData32 s" q "q + width e + width e"]
  by (simp add: diffPixel_def Let_def numbers_def mismatch_def hashStep_def)

lemma diffPixel_panels:
  fixes x y :: nat and key :: int
  assumes "0 < width e" and "q + width e + width e < length (diffData32 s)"
  defines "b \<equiv> diffData32 s ! q" and "c \<equiv> diffData32 s ! (q + width e + width e)"
  defines "s' \<equiv> diffPixel e y key x (q + width e) (q * COLOR_COMPONENTS)
       ((q + width e + width e) * COLOR_COMPONENTS) s"
  shows "diffData32 s' ! q = leftAfter (threshold255 e) y x b c"
    and "diffData32 s' ! (q + width e) = centreAfter (threshold255 e) b c"
    and "diffData32 s' ! (q + width e + width e) = rightAfter (threshold255 e) y x b c"
proof -
  have br: "differenceBrightness (diffData32 s) b c (q * COLOR_COMPONENTS)
       ((q + width e + width e) * COLOR_COMPONENTS) = brightness b c"
    unfolding b_def c_def by (rule differenceBrightness_brightness)
  show "diffData32 s' ! q = leftAfter (threshold255 e) y x b c"
    using assms(1,2) br
    by (simp add: s'_def diffPixel_def Let_def leftAfter_def mismatch_def parity_word_add
        flip: b_def c_def)
  show "diffData32 s' ! (q + width e) = centreAfter (threshold255 e) b c"
    using assms(1,2) br
    by (simp add: s'_def diffPixel_def Let_def centreAfter_def mismatch_def parity_word_add
        flip: b_def c_def)
  show "diffData32 s' ! (q + width e + width e) = rightAfter (threshold255 e) y x b c"
    using assms(1,2) br
    by (simp add: s'_def diffPixel_def Let_def rightAfter_def mismatch_def parity_word_add
        flip: b_def c_def)
qed

subsection \<open>The pixels of one row\<close>

lemma diffPixels_foldl_aux:
  "n = width e - x \<Longrightarrow>
   diffPixels e y key x (i + x) (b8 + x * COLOR_COMPONENTS) (c8 + x * COLOR_COMPONENTS) s =
     foldl (\<lambda>s x. diffPixel e y key x (i + x) (b8 + x * COLOR_COMPONENTS)
                    (c8 + x * COLOR_COMPONENTS) s) s [x..<width e]"
proof (induction n arbitrary: x s)
  case 0
  then show ?case by (simp add: diffPixels.simps)
next
  case (Suc n)
  then have lt: "x < width e" and n: "n = width e - Suc x" by simp_all
  have "diffPixels e y key x (i + x) (b8 + x * COLOR_COMPONENTS) (c8 + x * COLOR_COMPONENTS) s =
      diffPixels e y key (Suc x) (i + Suc x) (b8 + Suc x * COLOR_COMPONENTS)
        (c8 + Suc x * COLOR_COMPONENTS)
        (diffPixel e y key x (i + x) (b8 + x * COLOR_COMPONENTS) (c8 + x * COLOR_COMPONENTS) s)"
    using lt by (subst diffPixels.simps) (simp add: ac_simps)
  also have "\<dots> = foldl (\<lambda>s x. diffPixel e y key x (i + x) (b8 + x * COLOR_COMPONENTS)
                    (c8 + x * COLOR_COMPONENTS) s)
        (diffPixel e y key x (i + x) (b8 + x * COLOR_COMPONENTS) (c8 + x * COLOR_COMPONENTS) s)
        [Suc x..<width e]"
    by (rule Suc.IH [OF n])
  finally show ?case using lt by (simp add: upt_conv_Cons)
qed

lemma diffPixels_foldl:
  "diffPixels e y (int y * DIFF_HASH_SPREAD) 0 (p + width e) (p * COLOR_COMPONENTS)
       ((p + width e + width e) * COLOR_COMPONENTS) s =
     foldl (pixelStep e y p) s [0..<width e]"
proof -
  have "pixelStep e y p =
      (\<lambda>s x. diffPixel e y (int y * DIFF_HASH_SPREAD) x ((p + width e) + x)
         (p * COLOR_COMPONENTS + x * COLOR_COMPONENTS)
         ((p + width e + width e) * COLOR_COMPONENTS + x * COLOR_COMPONENTS) s)"
    by (intro ext) (simp add: pixelStep_def algebra_simps)
  then show ?thesis
    using diffPixels_foldl_aux [of "width e" e 0 y "int y * DIFF_HASH_SPREAD" "p + width e"
      "p * COLOR_COMPONENTS" "(p + width e + width e) * COLOR_COMPONENTS" s]
    by simp
qed

lemma pixelStep_numbers:
  "numbers (pixelStep e y p s x) =
     (if mismatch (threshold255 e) (diffData32 s ! (p + x))
           (diffData32 s ! (p + x + width e + width e))
      then hashStep (int y * DIFF_HASH_SPREAD) (numbers s) else numbers s)"
  by (simp add: pixelStep_def diffPixel_numbers)

lemma row_length:
  "length (diffData32 (foldl (pixelStep e y p) s xs)) = length (diffData32 s)"
  by (induction xs arbitrary: s) (simp_all add: pixelStep_def diffPixel_length)

lemma row_offsets:
  "baselineOffset32 (foldl (pixelStep e y p) s xs) = baselineOffset32 s"
  "candidateOffset32 (foldl (pixelStep e y p) s xs) = candidateOffset32 s"
  by (induction xs arbitrary: s) (simp_all add: pixelStep_def diffPixel_offsets)

lemma row_frame:
  "(\<And>x. x \<in> set xs \<Longrightarrow>
      j \<noteq> p + x \<and> j \<noteq> p + x + width e \<and> j \<noteq> p + x + width e + width e) \<Longrightarrow>
   diffData32 (foldl (pixelStep e y p) s xs) ! j = diffData32 s ! j"
proof (induction xs arbitrary: s)
  case Nil
  then show ?case by simp
next
  case (Cons x xs)
  have "diffData32 (foldl (pixelStep e y p) (pixelStep e y p s x) xs) ! j =
      diffData32 (pixelStep e y p s x) ! j"
    by (rule Cons.IH) (simp add: Cons.prems)
  also have "\<dots> = diffData32 s ! j"
    unfolding pixelStep_def using Cons.prems [of x] by (intro diffPixel_frame) simp_all
  finally show ?case by simp
qed

lemma row_unread:
  assumes "n \<le> x" and "x < width e"
  shows "diffData32 (foldl (pixelStep e y p) s [0..<n]) ! (p + x) = diffData32 s ! (p + x)"
    and "diffData32 (foldl (pixelStep e y p) s [0..<n]) ! (p + x + width e + width e) =
      diffData32 s ! (p + x + width e + width e)"
  using assms by (auto intro!: row_frame)

lemma row_numbers:
  assumes "n \<le> width e"
  shows "numbers (foldl (pixelStep e y p) s [0..<n]) =
     foldl (rowFlags (threshold255 e) (\<lambda>x. diffData32 s ! (p + x))
              (\<lambda>x. diffData32 s ! (p + x + width e + width e)) (int y * DIFF_HASH_SPREAD))
       (numbers s) [0..<n]"
  using assms
proof (induction n)
  case 0
  then show ?case by simp
next
  case (Suc n)
  then have n: "n \<le> n" "n < width e" "n \<le> width e" by simp_all
  show ?case
    by (simp add: pixelStep_numbers row_unread [OF n(1,2)] Suc.IH [OF n(3)] rowFlags_def)
qed

lemma row_panels:
  fixes y :: nat
  assumes "n \<le> width e" and "p + 3 * width e \<le> length (diffData32 s)" and "x < n"
  defines "d \<equiv> diffData32 (foldl (pixelStep e y p) s [0..<n])"
  defines "b \<equiv> diffData32 s ! (p + x)" and "c \<equiv> diffData32 s ! (p + x + width e + width e)"
  shows "d ! (p + x) = leftAfter (threshold255 e) y x b c"
    and "d ! (p + x + width e) = centreAfter (threshold255 e) b c"
    and "d ! (p + x + width e + width e) = rightAfter (threshold255 e) y x b c"
proof -
  let ?sx = "foldl (pixelStep e y p) s [0..<x]"
  let ?sx' = "pixelStep e y p ?sx x"
  from assms(1,3) have x: "x < width e" "x \<le> x" "0 < width e" by simp_all
  have "[0..<x + (n - x)] = [0..<x] @ [x..<x + (n - x)]"
    by (rule upt_add_eq_append) simp
  then have "[0..<n] = [0..<x] @ [x..<n]"
    using assms(3) by simp
  then have upt: "[0..<n] = [0..<x] @ x # [Suc x..<n]"
    using assms(3) by (simp add: upt_conv_Cons)
  have later: "diffData32 (foldl (pixelStep e y p) ?sx' [Suc x..<n]) ! j = diffData32 ?sx' ! j"
    if "j = p + x \<or> j = p + x + width e \<or> j = p + x + width e + width e" for j
    using that assms(1) by (intro row_frame) auto
  have len: "p + x + width e + width e < length (diffData32 ?sx)"
    using assms(2) x(1) by (simp add: row_length)
  have d: "d ! j = diffData32 ?sx' ! j"
    if "j = p + x \<or> j = p + x + width e \<or> j = p + x + width e + width e" for j
    unfolding d_def upt using later [OF that] by simp
  note pan = diffPixel_panels [OF x(3) len, of y "int y * DIFF_HASH_SPREAD" x,
      folded pixelStep_def, unfolded row_unread [OF x(2,1)]]
  show "d ! (p + x) = leftAfter (threshold255 e) y x b c"
    using pan(1) by (simp add: d b_def c_def)
  show "d ! (p + x + width e) = centreAfter (threshold255 e) b c"
    using pan(2) by (simp add: d b_def c_def)
  show "d ! (p + x + width e + width e) = rightAfter (threshold255 e) y x b c"
    using pan(3) by (simp add: d b_def c_def)
qed

subsection \<open>One row\<close>

lemma row_in_canvas:
  fixes y h w :: nat
  assumes "y < h"
  shows "y * w * 3 + 3 * w \<le> w * 3 * h"
proof -
  from assms have "Suc y * (w * 3) \<le> h * (w * 3)"
    by (intro mult_le_mono1) simp
  then show ?thesis by (simp add: algebra_simps)
qed

lemma nth_subarray:
  "int off \<le> int (length xs) - int w \<Longrightarrow> k < w \<Longrightarrow> subarray xs off w ! k = xs ! (off + k)"
  by (simp add: subarray_def)

lemma length_subarray:
  "int off \<le> int (length xs) - int w \<Longrightarrow> length (subarray xs off w) = w"
  by (simp add: subarray_def)

lemma copyBaselineLine_length:
  "length (diffData32 (copyBaselineLine e i s)) = length (diffData32 s)"
  by (simp add: copyBaselineLine_def)

lemma copyCandidateLine_length:
  "length (diffData32 (copyCandidateLine e i s)) = length (diffData32 s)"
  by (simp add: copyCandidateLine_def)

lemma copyBaselineLine_nth:
  assumes "j < length (diffData32 s)"
  shows "diffData32 (copyBaselineLine e (p + width e) s) ! j =
     (if lineAvailable (baselineData32 e) (baselineOffset32 s) (width e) \<and>
         p \<le> j \<and> j < p + width e
      then the (baselineData32 e) ! (baselineOffset32 s + (j - p))
      else diffData32 s ! j)"
  using assms
  by (auto simp: copyBaselineLine_def nth_setAt lineAvailable_def length_subarray nth_subarray
      split: option.splits)

lemma copyCandidateLine_nth:
  assumes "j < length (diffData32 s)"
  shows "diffData32 (copyCandidateLine e (p + width e) s) ! j =
     (if lineAvailable (candidateData32 e) (candidateOffset32 s) (width e) \<and>
         p + width e + width e \<le> j \<and> j < p + width e + width e + width e
      then the (candidateData32 e) ! (candidateOffset32 s + (j - (p + width e + width e)))
      else diffData32 s ! j)"
  using assms
  by (auto simp: copyCandidateLine_def nth_setAt lineAvailable_def length_subarray nth_subarray
      split: option.splits)

lemma copyLine_offsets:
  "baselineOffset32 (copyBaselineLine e i s) =
     (if lineAvailable (baselineData32 e) (baselineOffset32 s) (width e)
      then baselineOffset32 s + baselineOffsetIncrement32 e else baselineOffset32 s)"
  "candidateOffset32 (copyBaselineLine e i s) = candidateOffset32 s"
  "candidateOffset32 (copyCandidateLine e i s) =
     (if lineAvailable (candidateData32 e) (candidateOffset32 s) (width e)
      then candidateOffset32 s + candidateOffsetIncrement32 e else candidateOffset32 s)"
  "baselineOffset32 (copyCandidateLine e i s) = baselineOffset32 s"
  by (simp_all add: copyBaselineLine_def copyCandidateLine_def)

lemma copyLine_numbers:
  "numbers (copyBaselineLine e i s) = numbers s"
  "numbers (copyCandidateLine e i s) = numbers s"
  "numbers (highlightLine e i s) = numbers s"
  by (simp_all add: copyBaselineLine_def copyCandidateLine_def highlightLine_def numbers_def)

lemma copied_props:
  assumes y: "y < height e" and inv: "canvasInv e y s"
  shows "length (diffData32 (copied e y s)) = width e * 3 * height e"
    and "\<And>j. j < y * width e * 3 \<Longrightarrow> diffData32 (copied e y s) ! j = diffData32 s ! j"
    and "\<And>j. y * width e * 3 + 3 * width e \<le> j \<Longrightarrow> j < width e * 3 * height e \<Longrightarrow>
           diffData32 (copied e y s) ! j = 0"
    and "\<And>x. x < width e \<Longrightarrow> diffData32 (copied e y s) ! (y * width e * 3 + x) = baselinePixel e y x"
    and "\<And>x. x < width e \<Longrightarrow> diffData32 (copied e y s) ! (y * width e * 3 + x + width e) = 0"
    and "\<And>x. x < width e \<Longrightarrow>
           diffData32 (copied e y s) ! (y * width e * 3 + x + width e + width e) = candidatePixel e y x"
    and "baselineOffset32 (copied e y s) = baselineOffsetAt e (Suc y)"
    and "candidateOffset32 (copied e y s) = candidateOffsetAt e (Suc y)"
    and "numbers (copied e y s) = numbers s"
proof -
  let ?p = "y * width e * 3"
  let ?s1 = "copyBaselineLine e (?p + width e) s"
  from inv have len: "length (diffData32 s) = width e * 3 * height e"
    and zero: "\<And>j. ?p \<le> j \<Longrightarrow> j < width e * 3 * height e \<Longrightarrow> diffData32 s ! j = 0"
    and bo: "baselineOffset32 s = baselineOffsetAt e y"
    and co: "candidateOffset32 s = candidateOffsetAt e y"
    by (simp_all add: canvasInv_def)
  have fit: "?p + 3 * width e \<le> width e * 3 * height e"
    using y by (rule row_in_canvas)
  have len1: "length (diffData32 ?s1) = width e * 3 * height e"
    by (simp add: copyBaselineLine_length len)
  have nth: "diffData32 (copied e y s) ! j =
      (if lineAvailable (candidateData32 e) (candidateOffsetAt e y) (width e) \<and>
          ?p + width e + width e \<le> j \<and> j < ?p + width e + width e + width e
       then the (candidateData32 e) ! (candidateOffsetAt e y + (j - (?p + width e + width e)))
       else if lineAvailable (baselineData32 e) (baselineOffsetAt e y) (width e) \<and>
          ?p \<le> j \<and> j < ?p + width e
       then the (baselineData32 e) ! (baselineOffsetAt e y + (j - ?p))
       else diffData32 s ! j)" if "j < width e * 3 * height e" for j
    unfolding copied_def using that
    by (simp add: copyCandidateLine_nth copyBaselineLine_nth len1 len copyLine_offsets bo co)
  show "length (diffData32 (copied e y s)) = width e * 3 * height e"
    by (simp add: copied_def copyCandidateLine_length len1)
  show "diffData32 (copied e y s) ! j = diffData32 s ! j" if "j < ?p" for j
    using that fit by (simp add: nth)
  show "diffData32 (copied e y s) ! j = 0"
    if "?p + 3 * width e \<le> j" "j < width e * 3 * height e" for j
    using that by (simp add: nth zero)
  show "diffData32 (copied e y s) ! (?p + x) = baselinePixel e y x" if "x < width e" for x
    using that fit
    by (simp add: nth zero baselinePixel_def panelPixel_def baselineOffsetAt_def)
  show "diffData32 (copied e y s) ! (?p + x + width e) = 0" if "x < width e" for x
    using that fit by (simp add: nth zero)
  show "diffData32 (copied e y s) ! (?p + x + width e + width e) = candidatePixel e y x"
    if "x < width e" for x
    using that fit
    by (simp add: nth zero candidatePixel_def panelPixel_def candidateOffsetAt_def)
  show "baselineOffset32 (copied e y s) = baselineOffsetAt e (Suc y)"
    by (simp add: copied_def copyLine_offsets bo baselineOffsetAt_def)
  show "candidateOffset32 (copied e y s) = candidateOffsetAt e (Suc y)"
    by (simp add: copied_def copyLine_offsets co candidateOffsetAt_def)
  show "numbers (copied e y s) = numbers s"
    by (simp add: copied_def copyLine_numbers)
qed

lemma diffRow_both_eq:
  assumes "baselineData32 e \<noteq> None" and "candidateData32 e \<noteq> None"
    and "\<not> missingOneImage e"
  shows "diffRow e y s = foldl (pixelStep e y (y * width e * 3)) (copied e y s) [0..<width e]"
  using assms diffPixels_foldl [of e y "y * width e * 3" "copied e y s"]
  by (simp add: diffRow_def Let_def diffLine_def highlightLine_def copied_def)

lemma diffRow_both:
  assumes both: "baselineData32 e \<noteq> None" "candidateData32 e \<noteq> None"
    and nm: "\<not> missingOneImage e"
    and y: "y < height e" and inv: "canvasInv e y s"
  shows "canvasInv e (Suc y) (diffRow e y s)"
    and "numbers (diffRow e y s) = rowNumbers e (numbers s) y"
    and "panelsDone e y (diffData32 (diffRow e y s))"
    and "\<And>j. j < y * width e * 3 \<Longrightarrow> diffData32 (diffRow e y s) ! j = diffData32 s ! j"
proof -
  let ?p = "y * width e * 3"
  let ?c = "copied e y s"
  note eq = diffRow_both_eq [OF both nm, of y s]
  note cp = copied_props [OF y inv]
  have fit: "?p + 3 * width e \<le> length (diffData32 ?c)"
    using row_in_canvas [OF y, of "width e"] by (simp add: cp(1))
  have "diffData32 (diffRow e y s) ! j = 0"
    if "Suc y * width e * 3 \<le> j" "j < width e * 3 * height e" for j
  proof -
    have "diffData32 (diffRow e y s) ! j = diffData32 ?c ! j"
      unfolding eq using that by (intro row_frame) auto
    also have "\<dots> = 0"
      using that by (intro cp(3)) (simp_all add: algebra_simps)
    finally show ?thesis .
  qed
  then show "canvasInv e (Suc y) (diffRow e y s)"
    by (simp add: canvasInv_def eq row_length row_offsets cp(1,7,8))
  have "numbers (diffRow e y s) =
      foldl (rowFlags (threshold255 e) (\<lambda>x. diffData32 ?c ! (?p + x))
              (\<lambda>x. diffData32 ?c ! (?p + x + width e + width e)) (int y * DIFF_HASH_SPREAD))
        (numbers ?c) [0..<width e]"
    unfolding eq by (rule row_numbers) simp
  also have "\<dots> = rowNumbers e (numbers s) y"
    unfolding rowNumbers_def
  proof (rule foldl_cong)
    fix a x
    assume "x \<in> set [0..<width e]"
    then have "x < width e" by simp
    then show "rowFlags (threshold255 e) (\<lambda>x. diffData32 ?c ! (?p + x))
         (\<lambda>x. diffData32 ?c ! (?p + x + width e + width e)) (int y * DIFF_HASH_SPREAD) a x =
       rowFlags (threshold255 e) (baselinePixel e y) (candidatePixel e y)
         (int y * DIFF_HASH_SPREAD) a x"
      using cp(4) [of x] cp(6) [of x] by (simp add: rowFlags_def)
  qed (simp_all add: cp(9))
  finally show "numbers (diffRow e y s) = rowNumbers e (numbers s) y" .
  show "panelsDone e y (diffData32 (diffRow e y s))"
    unfolding panelsDone_def eq
  proof (intro allI impI)
    fix x
    assume x: "x < width e"
    from row_panels [OF le_refl fit x, of y] cp(4) [OF x] cp(6) [OF x]
    show "diffData32 (foldl (pixelStep e y ?p) ?c [0..<width e]) ! (?p + x) =
          leftAfter (threshold255 e) y x (baselinePixel e y x) (candidatePixel e y x) \<and>
        diffData32 (foldl (pixelStep e y ?p) ?c [0..<width e]) ! (?p + x + width e) =
          centreAfter (threshold255 e) (baselinePixel e y x) (candidatePixel e y x) \<and>
        diffData32 (foldl (pixelStep e y ?p) ?c [0..<width e]) ! (?p + x + width e + width e) =
          rightAfter (threshold255 e) y x (baselinePixel e y x) (candidatePixel e y x)"
      by simp
  qed
  show "diffData32 (diffRow e y s) ! j = diffData32 s ! j" if "j < ?p" for j
  proof -
    have "diffData32 (diffRow e y s) ! j = diffData32 ?c ! j"
      unfolding eq using that by (intro row_frame) auto
    then show ?thesis using that by (simp add: cp(2))
  qed
qed

lemma panelsDone_cong:
  assumes "panelsDone e y d" and "\<And>j. j < Suc y * width e * 3 \<Longrightarrow> d' ! j = d ! j"
  shows "panelsDone e y d'"
proof -
  have "d' ! (y * width e * 3 + x) = d ! (y * width e * 3 + x)"
    "d' ! (y * width e * 3 + x + width e) = d ! (y * width e * 3 + x + width e)"
    "d' ! (y * width e * 3 + x + width e + width e) = d ! (y * width e * 3 + x + width e + width e)"
    if "x < width e" for x
    using that by (simp_all add: assms(2))
  then show ?thesis using assms(1) by (simp add: panelsDone_def)
qed

subsection \<open>All rows\<close>

lemma rows_both:
  assumes both: "baselineData32 e \<noteq> None" "candidateData32 e \<noteq> None"
    and nm: "\<not> missingOneImage e"
    and n: "n \<le> height e" and inv: "canvasInv e 0 s"
  defines "sn \<equiv> foldl (\<lambda>s y. diffRow e y s) s [0..<n]"
  shows "canvasInv e n sn \<and>
     numbers sn = foldl (rowNumbers e) (numbers s) [0..<n] \<and>
     (\<forall>y<n. panelsDone e y (diffData32 sn))"
  using n unfolding sn_def
proof (induction n)
  case 0
  then show ?case using inv by simp
next
  case (Suc n)
  let ?sn = "foldl (\<lambda>s y. diffRow e y s) s [0..<n]"
  from Suc have n: "n < height e" and IH: "canvasInv e n ?sn"
    "numbers ?sn = foldl (rowNumbers e) (numbers s) [0..<n]"
    "\<And>y. y < n \<Longrightarrow> panelsDone e y (diffData32 ?sn)"
    by simp_all
  note row = diffRow_both [OF both nm n IH(1)]
  have "panelsDone e y (diffData32 (diffRow e n ?sn))" if "y < Suc n" for y
  proof (cases "y = n")
    case True
    then show ?thesis using row(3) by simp
  next
    case False
    with that have "y < n" by simp
    then have "Suc y \<le> n" by simp
    then have "Suc y * (width e * 3) \<le> n * (width e * 3)" by (rule mult_le_mono1)
    then have "Suc y * width e * 3 \<le> n * width e * 3" by (simp only: mult.assoc)
    then have "diffData32 (diffRow e n ?sn) ! j = diffData32 ?sn ! j"
      if "j < Suc y * width e * 3" for j
      using that by (intro row(4)) simp
    then show ?thesis using IH(3) [OF \<open>y < n\<close>] by (rule panelsDone_cong [rotated])
  qed
  then show ?case using row(1,2) IH(2) by simp
qed

lemma initialState_inv: "canvasInv e 0 (initialState mb mc e (blankCanvas e))"
  by (simp add: canvasInv_def initialState_def blankCanvas_def baselineOffsetAt_def
      candidateOffsetAt_def)

lemma diffRows_both:
  assumes "baselineData32 e \<noteq> None" "candidateData32 e \<noteq> None" "\<not> missingOneImage e"
  shows "numbers (diffRows e (initialState mb mc e (blankCanvas e))) = foldl (rowNumbers e) (0, 0, 0) [0..<height e]"
    and "\<And>y. y < height e \<Longrightarrow> panelsDone e y (diffData32 (diffRows e (initialState mb mc e (blankCanvas e))))"
proof -
  note r = rows_both [OF assms le_refl initialState_inv, of mb mc]
  have "numbers (initialState mb mc e (blankCanvas e)) = (0, 0, 0)"
    using assms(3) by (simp add: numbers_def initialState_def)
  then show "numbers (diffRows e (initialState mb mc e (blankCanvas e))) =
      foldl (rowNumbers e) (0, 0, 0) [0..<height e]"
    using r by (simp add: diffRows_def)
  show "panelsDone e y (diffData32 (diffRows e (initialState mb mc e (blankCanvas e))))" if "y < height e" for y
    using r that by (simp add: diffRows_def)
qed

subsection \<open>The numbers as a fold over the mismatched positions\<close>

lemma foldl_filter:
  "foldl (\<lambda>acc p. if P p then f acc p else acc) a xs = foldl f a (filter P xs)"
  by (induction xs arbitrary: a) simp_all

lemma rowNumbers_filter:
  "rowNumbers e acc y =
     foldl (\<lambda>acc p. hashStep (hashKey p) acc) acc (filter (mismatchAt e) (map (Pair y) [0..<width e]))"
proof -
  have "rowNumbers e acc y =
      foldl (\<lambda>acc p. if mismatchAt e p then hashStep (hashKey p) acc else acc) acc
        (map (Pair y) [0..<width e])"
    by (simp add: rowNumbers_def foldl_map rowFlags_def [abs_def] mismatchAt_def hashKey_def
        cong: if_cong)
  then show ?thesis by (simp add: foldl_filter)
qed

lemma rows_filter:
  "foldl (rowNumbers e) acc [0..<n] =
     foldl (\<lambda>acc p. hashStep (hashKey p) acc) acc (filter (mismatchAt e) (positions (width e) n))"
  by (induction n arbitrary: acc) (simp_all add: positions_def rowNumbers_filter)

lemma allNumbers_mismatches:
  "foldl (rowNumbers e) (0, 0, 0) [0..<height e] = hashAll (mismatches e)"
  by (simp add: rows_filter hashAll_def mismatches_def)

lemma sorted_positions: "sorted (map fst (positions w h))"
proof (induction h)
  case 0
  then show ?case by (simp add: positions_def)
next
  case (Suc h)
  have "set (map fst (positions w h)) \<subseteq> {..<h}"
    by (auto simp: positions_def)
  then have "\<forall>a\<in>set (map fst (positions w h)). a \<le> h"
    by auto
  moreover have "map fst (positions w (Suc h)) = map fst (positions w h) @ replicate w h"
    by (simp add: positions_def comp_def map_replicate_const)
  ultimately show ?case using Suc by (simp add: sorted_append sorted_replicate)
qed

lemma sorted_mismatches: "sorted (map fst (mismatches e))"
  unfolding mismatches_def
  using sorted_positions [of "width e" "height e"] sorted_filter [of fst "positions (width e) (height e)" "mismatchAt e"]
  by simp

lemma hash_seeded:
  assumes "DIFF_HASH_SPREAD \<le> h" and "\<forall>p\<in>set ms. start \<le> hashKey p"
  shows "foldl (\<lambda>acc p. hashStep (hashKey p) acc) (n, h, start) ms =
     (n + int (length ms), h + (\<Sum>p\<leftarrow>ms. hashKey p - start), start)"
  using assms
proof (induction ms arbitrary: n h)
  case Nil
  then show ?case by simp
next
  case (Cons p ms)
  from Cons.prems have pos: "h \<noteq> 0" "start \<le> hashKey p"
    by (simp_all add: DIFF_HASH_SPREAD_def)
  then have step: "hashStep (hashKey p) (n, h, start) = (n + 1, h + (hashKey p - start), start)"
    by (simp add: hashStep_def)
  have "DIFF_HASH_SPREAD \<le> h + (hashKey p - start)"
    using Cons.prems pos by simp
  from Cons.IH [OF this] Cons.prems(2) show ?case
    by (simp add: step)
qed

lemma hashAll_Cons:
  assumes "sorted (map fst (p # ms))"
  shows "hashAll (p # ms) =
     (1 + int (length ms), DIFF_HASH_SPREAD + (\<Sum>q\<leftarrow>ms. hashKey q - hashKey p), hashKey p)"
proof -
  have "\<forall>q\<in>set ms. hashKey p \<le> hashKey q"
    using assms by (auto simp: hashKey_def DIFF_HASH_SPREAD_def split: prod.splits)
  then show ?thesis
    using hash_seeded [of DIFF_HASH_SPREAD ms "hashKey p" 1]
    by (simp add: hashAll_def hashStep_def)
qed

lemma hashAll_count: "sorted (map fst ms) \<Longrightarrow> fst (hashAll ms) = int (length ms)"
  by (cases ms) (simp_all add: hashAll_Cons, simp add: hashAll_def)

lemma hashAll_zero_iff:
  assumes "sorted (map fst ms)"
  shows "fst (snd (hashAll ms)) = 0 \<longleftrightarrow> ms = []"
proof (cases ms)
  case Nil
  then show ?thesis by (simp add: hashAll_def)
next
  case (Cons p ms')
  have "\<forall>q\<in>set ms'. hashKey p \<le> hashKey q"
    using assms Cons by (auto simp: hashKey_def DIFF_HASH_SPREAD_def split: prod.splits)
  then have "0 \<le> (\<Sum>q\<leftarrow>ms'. hashKey q - hashKey p)"
    by (intro sum_list_nonneg) auto
  then show ?thesis
    using assms Cons by (simp add: hashAll_Cons DIFF_HASH_SPREAD_def)
qed

section \<open>The whole call\<close>

lemma present_Some_image: "present i = Some p \<Longrightarrow> image i \<noteq> None"
  by (auto simp: present_def split: option.splits)

lemma present_None: "image i = None \<Longrightarrow> present i = None"
  by (simp add: present_def)

lemma prepare_both:
  fixes t :: jsnumber
  assumes "present baseline = Some (bi, bv)" and "present candidate = Some (ci, cv)"
  defines "e \<equiv> prepare baseline candidate t"
  shows "baselineData32 e = Some (img_data32 bi)"
    and "candidateData32 e = Some (img_data32 ci)"
    and "\<not> missingOneImage e"
    and "width e = max (vp_width bv) (vp_width cv)"
    and "height e = max (vp_height bv) (vp_height cv)"
    and "threshold255 e = threshold255Of t"
  using assms(1,2) by (simp_all add: e_def prepare_def missingOneImage_def)

lemma prepare_threshold:
  "prepare baseline candidate t = (prepare baseline candidate t')\<lparr>threshold255 := threshold255Of t\<rparr>"
  by (simp add: prepare_def Let_def)

lemma diffImagesAsync_null:
  fixes t :: jsnumber
  assumes "image baseline \<noteq> None \<or> image candidate \<noteq> None"
    and "width (prepare baseline candidate t) = 0 \<or> height (prepare baseline candidate t) = 0"
  shows "diffImagesAsync mb mc baseline candidate t = Inl TypeError"
  using assms(1) newPNG_null [OF assms(2)] by (auto simp: diffImagesAsync_def Let_def)

lemma diffImagesAsync_both:
  fixes t :: jsnumber
  assumes pb: "present baseline = Some bp" and pc: "present candidate = Some cp"
  defines "e \<equiv> prepare baseline candidate t"
  assumes fits: "canvasFits e"
  shows "diffImagesAsync mb mc baseline candidate t =
     Inr (Some \<lparr>returned = \<lparr>r_mismatchedPixels = int (length (mismatches e)),
                          r_diffHash = fst (snd (hashAll (mismatches e)))\<rparr>,
            diffWidth = width e * 3,
            diffHeight = height e,
            loopCanvas = diffData32 (diffRows e (initialState mb mc e (blankCanvas e))),
            written = (mismatches e \<noteq> [])\<rparr>)"
proof -
  obtain bi bv ci cv where p: "present baseline = Some (bi, bv)" "present candidate = Some (ci, cv)"
    using pb pc by (cases bp, cases cp) auto
  have both: "baselineData32 e \<noteq> None" "candidateData32 e \<noteq> None" "\<not> missingOneImage e"
    unfolding e_def using prepare_both [OF p, of t] by simp_all
  let ?s = "diffRows e (initialState mb mc e (blankCanvas e))"
  have num: "numbers ?s = hashAll (mismatches e)"
    by (simp add: diffRows_both(1) [OF both] allNumbers_mismatches)
  have "mismatchedPixels ?s = fst (numbers ?s)" "diffHash ?s = fst (snd (numbers ?s))"
    by (simp_all add: numbers_def)
  then have n: "mismatchedPixels ?s = int (length (mismatches e))"
    "diffHash ?s = fst (snd (hashAll (mismatches e)))"
    using hashAll_count [OF sorted_mismatches, of e] by (simp_all add: num)
  show ?thesis
    using present_Some_image [OF pb] newPNG_fits [OF fits]
    by (simp add: diffImagesAsync_def Let_def n flip: e_def)
qed

lemma canvasFits_threshold:
  "canvasFits (prepare baseline candidate t) = canvasFits (prepare baseline candidate t')"
  by (simp add: canvasFits_def prepare_def Let_def)

lemma pixels_threshold:
  "baselinePixel (e\<lparr>threshold255 := t\<rparr>) = baselinePixel e"
  "candidatePixel (e\<lparr>threshold255 := t\<rparr>) = candidatePixel e"
  by (simp_all add: baselinePixel_def candidatePixel_def fun_eq_iff)

lemma mismatches_antimono:
  assumes "threshold255 e1 \<le> threshold255 e2"
    and "e2 = e1\<lparr>threshold255 := threshold255 e2\<rparr>"
  shows "length (mismatches e2) \<le> length (mismatches e1)"
proof -
  have px: "baselinePixel e2 = baselinePixel e1" "candidatePixel e2 = candidatePixel e1"
    using pixels_threshold [where e = e1 and t = "threshold255 e2"] assms(2) by simp_all
  have wh: "width e2 = width e1" "height e2 = height e1"
    by (subst assms(2), simp)+
  have "mismatchAt e2 p \<Longrightarrow> mismatchAt e1 p" for p
    using assms(1) by (simp add: mismatchAt_def mismatch_def px)
  then have "filter (mismatchAt e2) (positions (width e1) (height e1)) =
      filter (mismatchAt e2) (filter (mismatchAt e1) (positions (width e1) (height e1)))"
    by (auto simp: filter_filter intro: filter_cong)
  then have "length (mismatches e2) = length (filter (mismatchAt e2) (mismatches e1))"
    by (simp add: mismatches_def wh)
  then show ?thesis by simp
qed

subsection \<open>Full-frame images of one size\<close>

lemma present_fullFrame:
  "present (fullFrame n w h d) =
     Some (\<lparr>img_width = w, img_height = h, img_data32 = d\<rparr>,
           \<lparr>vp_x = 0, vp_y = 0, vp_width = w, vp_height = h, vp_scale = 1\<rparr>)"
  by (simp add: present_def fullFrame_def)

lemma present_absent: "present absent = None"
  by (simp add: present_def absent_def)

lemma present_withSidecar:
  "present (withSidecar n w h d v) =
     Some (\<lparr>img_width = w, img_height = h, img_data32 = d\<rparr>, v)"
  by (simp add: present_def withSidecar_def)

lemma prepare_fullFrame:
  "prepare (fullFrame n w h d) (fullFrame n' w' h' d') t =
     \<lparr>width = max w w', height = max h h', imagesCount = 2,
      baselineData32 = Some d, candidateData32 = Some d',
      baselineOffsetStart32 = 0, candidateOffsetStart32 = 0,
      baselineOffsetIncrement32 = w, candidateOffsetIncrement32 = w',
      threshold255 = threshold255Of t\<rparr>"
  by (simp add: prepare_def present_fullFrame)

lemma canvasFits_fullFrame:
  "canvasFits (prepare (fullFrame n w h d) (fullFrame n' w' h' d') t) \<longleftrightarrow>
     0 < max w w' \<and> 0 < max h h' \<and> 4 * (max w w' * 3 * max h h') < 2 ^ 30"
  by (simp add: canvasFits_def prepare_fullFrame)

lemma lineAvailable_Some:
  "lineAvailable (Some xs) off w \<longleftrightarrow> off + w \<le> length xs"
  by (auto simp: lineAvailable_def)

lemma offsetAt_full:
  "length d = w * h \<Longrightarrow> y \<le> h \<Longrightarrow> offsetAt (Some d) w w 0 y = y * w"
proof (induction y)
  case 0
  then show ?case by simp
next
  case (Suc y)
  then have "y * w + w \<le> w * h"
    using mult_le_mono1 [of "Suc y" h w] by (simp add: algebra_simps)
  then show ?case using Suc by (simp add: lineAvailable_Some)
qed

lemma panelPixel_full:
  assumes "length d = w * h" and "y < h"
  shows "panelPixel (Some d) w w 0 y x = d ! (y * w + x)"
proof -
  have "y * w + w \<le> w * h"
    using mult_le_mono1 [of "Suc y" h w] assms(2) by (simp add: algebra_simps)
  then show ?thesis
    using assms offsetAt_full [OF assms(1) less_imp_le [OF assms(2)]]
    by (simp add: panelPixel_def lineAvailable_Some)
qed

lemma set_positions: "set (positions w h) = {p. fst p < h \<and> snd p < w}"
  by (auto simp: positions_def)

lemma mismatches_fullFrame:
  assumes "length d = w * h" and "length d' = w * h"
  shows "mismatches (prepare (fullFrame n w h d) (fullFrame n' w h d') t) =
     filter (\<lambda>p. mismatch (threshold255Of t)
                  (d ! (fst p * w + snd p)) (d' ! (fst p * w + snd p))) (positions w h)"
  unfolding mismatches_def
  by (rule filter_cong)
    (auto simp: prepare_fullFrame set_positions mismatchAt_def baselinePixel_def candidatePixel_def
      panelPixel_full [OF assms(1)] panelPixel_full [OF assms(2)])

lemma positions_2_1: "positions 2 (Suc 0) = [(0, 0), (0, 1)]"
  by (simp add: positions_def upt_rec)

lemma positions_4_4: "positions 4 4 = [(0, 0), (0, 1), (0, 2), (0, 3), (1, 0), (1, 1), (1, 2), (1, 3),
   (2, 0), (2, 1), (2, 2), (2, 3), (3, 0), (3, 1), (3, 2), (3, 3)]"
  by (simp add: positions_def upt_rec)

lemma black_white_mismatch: "mismatch (threshold255Of (Num (3 / 100))) 0xff000000 0xffffffff"
  by (simp add: mismatch_def brightness_def channel_def threshold255Of_default double_simps)

text \<open>
  Rounding decides at the boundary: the zero pixel against \<open>0x44cc0000\<close> differs by
  \<open>0.587 * 204 + 0.114 * 68\<close>, which is 127.5 over the real numbers and the double below
  127.5 in the engine, a match at threshold 0.5.
\<close>

lemma brightness_below_half:
  "brightness 0 0x44cc0000 = 8972014882652159 / 2 ^ 46 \<and>
   threshold255Of (Num (1 / 2)) = 255 / 2 \<and>
   \<not> mismatch (threshold255Of (Num (1 / 2))) 0 0x44cc0000"
  by (simp add: mismatch_def brightness_def channel_def threshold255Of_direct thresholdOperand_def
      double_simps)

subsection \<open>Counting per row, and the side panels after the loop\<close>

lemma hash_count:
  "fst (foldl (\<lambda>acc p. hashStep (hashKey p) acc) acc ms) = fst acc + int (length ms)"
  by (induction ms arbitrary: acc) (simp_all add: hashStep_def split: prod.splits)

lemma rowNumbers_count:
  "fst (rowNumbers e acc y) =
     fst acc + int (length (filter (\<lambda>x. mismatch (threshold255 e) (baselinePixel e y x)
                                            (candidatePixel e y x)) [0..<width e]))"
proof -
  have "length (filter (mismatchAt e) (map (Pair y) [0..<width e])) =
      length (filter (\<lambda>x. mismatch (threshold255 e) (baselinePixel e y x)
                             (candidatePixel e y x)) [0..<width e])"
    by (simp add: filter_map comp_def mismatchAt_def)
  then show ?thesis
    by (simp add: rowNumbers_filter hash_count)
qed


subsection \<open>One image missing\<close>

lemma rows_one_missing:
  assumes "baselineData32 e = None \<or> candidateData32 e = None"
  shows "numbers (foldl (\<lambda>s y. diffRow e y s) s ys) = numbers s"
proof (induction ys arbitrary: s)
  case Nil
  then show ?case by simp
next
  case (Cons y ys)
  have "numbers (diffRow e y s) = numbers s"
    using assms by (auto simp: diffRow_def Let_def diffLine_def copyLine_numbers)
  then show ?case by (simp add: Cons.IH)
qed

lemma diffImagesAsync_one_missing:
  fixes t :: jsnumber
  assumes none: "present baseline = None \<or> present candidate = None"
    and some: "image baseline \<noteq> None \<or> image candidate \<noteq> None"
  defines "e \<equiv> prepare baseline candidate t"
  assumes fits: "canvasFits e"
  shows "map_sum id (map_option returned) (diffImagesAsync mb mc baseline candidate t) =
     Inr (Some \<lparr>r_mismatchedPixels = mismatchedPixels (initialState mb mc e (blankCanvas e)),
                  r_diffHash = 0\<rparr>)"
proof -
  have "baselineData32 e = None \<or> candidateData32 e = None"
    using none by (auto simp: e_def prepare_def Let_def)
  then have "numbers (diffRows e (initialState mb mc e (blankCanvas e))) =
      numbers (initialState mb mc e (blankCanvas e))"
    unfolding diffRows_def by (rule rows_one_missing)
  then have "mismatchedPixels (diffRows e (initialState mb mc e (blankCanvas e))) =
        mismatchedPixels (initialState mb mc e (blankCanvas e))"
      "diffHash (diffRows e (initialState mb mc e (blankCanvas e))) = 0"
    by (simp_all add: numbers_def initialState_def)
  then show ?thesis
    using some newPNG_fits [OF fits]
    by (auto simp: diffImagesAsync_def Let_def simp flip: e_def)
qed

lemma only_baseline:
  assumes "present baseline = Some bp" and "image candidate = None"
    and "canvasFits (prepare baseline candidate t)"
  shows "map_sum id (map_option returned) (diffImagesAsync mb mc baseline candidate t) =
     Inr (Some \<lparr>r_mismatchedPixels = mc, r_diffHash = 0\<rparr>)"
proof -
  have "mismatchedPixels (initialState mb mc (prepare baseline candidate t) d) = mc" for d
    using assms by (simp add: initialState_def prepare_def missingOneImage_def present_None)
  then show ?thesis
    using diffImagesAsync_one_missing [where baseline = baseline and candidate = candidate
        and t = t and mb = mb and mc = mc] assms present_Some_image [OF assms(1)]
    by (simp add: present_None)
qed

lemma only_candidate:
  assumes "image baseline = None" and "present candidate = Some cp"
    and "canvasFits (prepare baseline candidate t)"
  shows "map_sum id (map_option returned) (diffImagesAsync mb mc baseline candidate t) =
     Inr (Some \<lparr>r_mismatchedPixels = mb, r_diffHash = 0\<rparr>)"
proof -
  have "mismatchedPixels (initialState mb mc (prepare baseline candidate t) d) = mb" for d
    using assms by (simp add: initialState_def prepare_def missingOneImage_def present_None)
  then show ?thesis
    using diffImagesAsync_one_missing [where baseline = baseline and candidate = candidate
        and t = t and mb = mb and mc = mc] assms present_Some_image [OF assms(2)]
    by (simp add: present_None)
qed

lemma highlightLine_nth:
  assumes "missingOneImage e" and "j < length (diffData32 s)"
  shows "diffData32 (highlightLine e i s) ! j =
     (if i \<le> j \<and> j < i + width e then COLOR_HIGHLIGHT_ABGR else diffData32 s ! j)"
  using assms by (simp add: highlightLine_def nth_fill)

lemma highlightLine_length:
  "length (diffData32 (highlightLine e i s)) = length (diffData32 s)"
  by (simp add: highlightLine_def)

lemma diffRow_one_missing:
  assumes "baselineData32 e = None \<or> candidateData32 e = None" and "missingOneImage e"
    and "length (diffData32 s) = width e * 3 * height e" and "y < height e"
  shows "length (diffData32 (diffRow e y s)) = width e * 3 * height e"
    and "\<And>j. j < y * width e * 3 \<Longrightarrow> diffData32 (diffRow e y s) ! j = diffData32 s ! j"
    and "\<And>x. x < width e \<Longrightarrow>
           diffData32 (diffRow e y s) ! (y * width e * 3 + width e + x) = COLOR_HIGHLIGHT_ABGR"
proof -
  let ?p = "y * width e * 3"
  let ?h = "highlightLine e (?p + width e) s"
  let ?b = "copyBaselineLine e (?p + width e) ?h"
  have eq: "diffRow e y s = copyCandidateLine e (?p + width e) ?b"
    using assms(1) by (auto simp: diffRow_def Let_def diffLine_def)
  have fit: "?p + 3 * width e \<le> width e * 3 * height e"
    using assms(4) by (rule row_in_canvas)
  have len: "length (diffData32 ?h) = width e * 3 * height e"
    "length (diffData32 ?b) = width e * 3 * height e"
    by (simp_all add: copyBaselineLine_length highlightLine_length assms(3))
  show "length (diffData32 (diffRow e y s)) = width e * 3 * height e"
    by (simp add: eq copyCandidateLine_length len)
  show "diffData32 (diffRow e y s) ! j = diffData32 s ! j" if "j < ?p" for j
    using that fit
    by (simp add: eq copyCandidateLine_nth copyBaselineLine_nth highlightLine_nth len assms(2,3))
  show "diffData32 (diffRow e y s) ! (?p + width e + x) = COLOR_HIGHLIGHT_ABGR"
    if "x < width e" for x
    using that fit
    by (simp add: eq copyCandidateLine_nth copyBaselineLine_nth highlightLine_nth len assms(2,3))
qed

lemma rows_centre_highlighted:
  assumes "baselineData32 e = None \<or> candidateData32 e = None" and "missingOneImage e"
    and "length (diffData32 s) = width e * 3 * height e" and "n \<le> height e"
  defines "sn \<equiv> foldl (\<lambda>s y. diffRow e y s) s [0..<n]"
  shows "length (diffData32 sn) = width e * 3 * height e \<and>
     (\<forall>y<n. \<forall>x<width e. diffData32 sn ! (y * width e * 3 + width e + x) = COLOR_HIGHLIGHT_ABGR)"
  using assms(4) unfolding sn_def
proof (induction n)
  case 0
  then show ?case by (simp add: assms(3))
next
  case (Suc n)
  let ?sn = "foldl (\<lambda>s y. diffRow e y s) s [0..<n]"
  from Suc have n: "n < height e" and len: "length (diffData32 ?sn) = width e * 3 * height e"
    and IH: "\<And>y x. y < n \<Longrightarrow> x < width e \<Longrightarrow>
           diffData32 ?sn ! (y * width e * 3 + width e + x) = COLOR_HIGHLIGHT_ABGR"
    by simp_all
  note row = diffRow_one_missing [OF assms(1,2) len n]
  have "diffData32 (diffRow e n ?sn) ! (y * width e * 3 + width e + x) = COLOR_HIGHLIGHT_ABGR"
    if "y < Suc n" "x < width e" for y x
  proof (cases "y = n")
    case True
    then show ?thesis using row(3) [OF that(2)] by simp
  next
    case False
    with that have y: "y < n" by simp
    then have "Suc y \<le> n" by simp
    then have "Suc y * (width e * 3) \<le> n * (width e * 3)" by (rule mult_le_mono1)
    then have "y * width e * 3 + width e + x < n * width e * 3"
      using that(2) by (simp add: algebra_simps)
    then show ?thesis using row(2) IH [OF y that(2)] by simp
  qed
  then show ?case using row(1) by simp
qed

lemma centre_highlighted:
  fixes t :: jsnumber
  assumes "present baseline = None \<or> present candidate = None"
    and "present baseline \<noteq> None \<or> present candidate \<noteq> None"
    and "canvasFits (prepare baseline candidate t)"
    and "diffImagesAsync mb mc baseline candidate t = Inr (Some out)"
    and "y < diffHeight out" and "x < diffWidth out div 3"
  shows "loopCanvas out ! (y * diffWidth out + diffWidth out div 3 + x) = COLOR_HIGHLIGHT_ABGR"
proof -
  let ?e = "prepare baseline candidate t"
  let ?s = "initialState mb mc ?e (blankCanvas ?e)"
  have none: "baselineData32 ?e = None \<or> candidateData32 ?e = None"
    using assms(1) by (auto simp: prepare_def Let_def)
  have one: "missingOneImage ?e"
    using assms(1,2) by (auto simp: prepare_def Let_def missingOneImage_def)
  have out: "loopCanvas out = diffData32 (diffRows ?e ?s)" "diffHeight out = height ?e"
    "diffWidth out = width ?e * 3"
    using assms(4) newPNG_fits [OF assms(3)]
    by (auto simp: diffImagesAsync_def Let_def split: if_splits)
  have "length (diffData32 ?s) = width ?e * 3 * height ?e"
    by (simp add: initialState_def blankCanvas_def)
  from rows_centre_highlighted [OF none one this le_refl] assms(5,6)
  show ?thesis
    by (simp add: out diffRows_def algebra_simps)
qed


lemma tint_colours:
  "channel 0xff6060e0 0 = 224 \<and> channel 0xff6060e0 1 = 96 \<and> channel 0xff6060e0 2 = 96 \<and>
   channel 0xff60e060 0 = 96 \<and> channel 0xff60e060 1 = 224 \<and> channel 0xff60e060 2 = 96"
  by (simp add: channel_def)

section \<open>The claims\<close>

subsection \<open>C1: the brightness difference\<close>

text \<open>
  Claim C1 states that the brightness difference of two differing pixels is
  \<open>0.299*|\<Delta>R| + 0.587*|\<Delta>G| + 0.114*|\<Delta>B|\<close> over red, green and blue, with alpha
  excluded. The loop reads the bytes at offsets 1, 2 and 3 of each pixel, which are green,
  blue and alpha (lemma \<open>differenceBrightness_brightness\<close>): red is never read. Opaque red
  against opaque black differs by 76.245 in the claim's formula, above the threshold
  7.65, and the call counts no mismatch; opaque black against transparent black differs by
  0 in the claim's formula and the call counts a mismatch.
\<close>

theorem red_ignored_alpha_counted:
  "map_sum id (map_option returned)
     (diffImagesAsync mb mc (fullFrame ''baseline.png'' 1 1 [rgba 255 0 0 255])
        (fullFrame ''candidate.png'' 1 1 [rgba 0 0 0 255]) (Num (3 / 100))) =
     Inr (Some \<lparr>r_mismatchedPixels = 0, r_diffHash = 0\<rparr>) \<and>
   specBrightness (rgba 255 0 0 255) (rgba 0 0 0 255) = 76245 / 1000 \<and>
   BRIGHTNESS_DIFFERENCE_THRESHOLD (Num (3 / 100)) = 765 / 100 \<and>
   map_sum id (map_option returned)
     (diffImagesAsync mb mc (fullFrame ''baseline.png'' 1 1 [rgba 0 0 0 255])
        (fullFrame ''candidate.png'' 1 1 [rgba 0 0 0 0]) (Num (3 / 100))) =
     Inr (Some \<lparr>r_mismatchedPixels = 1, r_diffHash = 4919\<rparr>) \<and>
   specBrightness (rgba 0 0 0 255) (rgba 0 0 0 0) = 0"
proof -
  have p: "positions (Suc 0) (Suc 0) = [(0, 0)]"
    by (simp add: positions_def)
  have "mismatches (prepare (fullFrame ''baseline.png'' 1 1 [rgba 255 0 0 255])
        (fullFrame ''candidate.png'' 1 1 [rgba 0 0 0 255]) (Num (3 / 100))) = []"
    by (simp add: mismatches_fullFrame p mismatch_def brightness_def channel_def rgba_def
        threshold255Of_default double_simps)
  moreover have "mismatches (prepare (fullFrame ''baseline.png'' 1 1 [rgba 0 0 0 255])
        (fullFrame ''candidate.png'' 1 1 [rgba 0 0 0 0]) (Num (3 / 100))) = [(0, 0)]"
    by (simp add: mismatches_fullFrame p mismatch_def brightness_def channel_def rgba_def
        threshold255Of_default double_simps)
  ultimately show ?thesis
    by (simp add: diffImagesAsync_both [OF present_fullFrame present_fullFrame]
        canvasFits_fullFrame hashAll_def hashStep_def hashKey_def DIFF_HASH_SPREAD_def
        specBrightness_def channel_def rgba_def
        BRIGHTNESS_DIFFERENCE_THRESHOLD_def DEFAULT_THRESHOLD_def)
qed

subsection \<open>C2: one image or no image\<close>

text \<open>
  Claim C2 states that with only the baseline image the returned \<open>mismatchedPixels\<close> is
  the "missing baseline" sentinel, with only the candidate image the "missing candidate"
  sentinel, that with neither image nothing is returned, and that with one image no pixel
  is compared. The first two parts name the sentinels the wrong way round: with only the
  baseline present the candidate is the one missing, and the call returns
  \<^verbatim>\<open>MISSING_CANDIDATE\<close> (here \<open>- 2\<close>, with \<open>- 1\<close> for \<^verbatim>\<open>MISSING_BASELINE\<close>). And
  not every call with one image returns a sentinel: for a baseline whose sidecar file
  gives a viewport of width 0 the diff image has no buffer, and the call throws.
\<close>

theorem only_baseline_returns_missing_candidate:
  "map_sum id (map_option returned)
     (diffImagesAsync (- 1) (- 2) (fullFrame ''baseline.png'' 1 1 [rgba 0 0 0 255]) absent
        (Num (3 / 100))) =
     Inr (Some \<lparr>r_mismatchedPixels = - 2, r_diffHash = 0\<rparr>) \<and>
   map_sum id (map_option returned)
     (diffImagesAsync (- 1) (- 2) absent (fullFrame ''candidate.png'' 1 1 [rgba 0 0 0 255])
        (Num (3 / 100))) =
     Inr (Some \<lparr>r_mismatchedPixels = - 1, r_diffHash = 0\<rparr>) \<and>
   diffImagesAsync (- 1) (- 2)
     (withSidecar ''baseline'' 1 1 [rgba 0 0 0 255]
        \<lparr>vp_x = 0, vp_y = 0, vp_width = 0, vp_height = 1, vp_scale = 1\<rparr>) absent
     (Num (3 / 100)) = Inl TypeError"
proof -
  have fits: "canvasFits (prepare (fullFrame ''baseline.png'' 1 1 [rgba 0 0 0 255]) absent
        (Num (3 / 100)))"
    "canvasFits (prepare absent (fullFrame ''candidate.png'' 1 1 [rgba 0 0 0 255])
        (Num (3 / 100)))"
    by (simp_all add: canvasFits_def prepare_def Let_def present_fullFrame present_absent)
  have "diffImagesAsync (- 1) (- 2)
     (withSidecar ''baseline'' 1 1 [rgba 0 0 0 255]
        \<lparr>vp_x = 0, vp_y = 0, vp_width = 0, vp_height = 1, vp_scale = 1\<rparr>) absent
     (Num (3 / 100)) = Inl TypeError"
    by (rule diffImagesAsync_null)
      (simp_all add: prepare_def Let_def present_withSidecar present_absent, simp add: withSidecar_def)
  then show ?thesis
    using only_baseline [where baseline = "fullFrame ''baseline.png'' 1 1 [rgba 0 0 0 255]"
        and candidate = absent and mb = "- 1" and mc = "- 2" and t = "Num (3 / 100)",
        OF present_fullFrame _ fits(1)]
      only_candidate [where candidate = "fullFrame ''candidate.png'' 1 1 [rgba 0 0 0 255]"
        and baseline = absent and mb = "- 1" and mc = "- 2" and t = "Num (3 / 100)",
        OF _ present_fullFrame fits(2)]
    by (simp add: absent_def)
qed

text \<open>
  Claim C2, amended: with neither image the call returns nothing (\<^verbatim>\<open>undefined\<close>). With
  one image and a diff image of positive width and height (and fewer than \<open>2^30\<close> bytes),
  the call returns \<^verbatim>\<open>MISSING_CANDIDATE\<close> as \<open>mismatchedPixels\<close> when only the
  baseline image exists and \<^verbatim>\<open>MISSING_BASELINE\<close> when only the candidate image exists,
  and no pixel is compared: the sentinel is returned as it is, \<open>diffHash\<close> is 0, and
  every pixel of the centre panel holds the highlight colour. With an image and a diff
  image of width or height 0, the call throws \<^verbatim>\<open>TypeError\<close> and returns nothing.
\<close>

theorem missing_image_results:
  "(image baseline = None \<and> image candidate = None \<longrightarrow>
      diffImagesAsync MISSING_BASELINE MISSING_CANDIDATE baseline candidate t = Inr None) \<and>
   (present baseline \<noteq> None \<and> image candidate = None \<and>
    canvasFits (prepare baseline candidate t) \<longrightarrow>
      map_sum id (map_option returned)
        (diffImagesAsync MISSING_BASELINE MISSING_CANDIDATE baseline candidate t) =
        Inr (Some \<lparr>r_mismatchedPixels = MISSING_CANDIDATE, r_diffHash = 0\<rparr>) \<and>
      map_sum id (map_option centreHighlighted)
        (diffImagesAsync MISSING_BASELINE MISSING_CANDIDATE baseline candidate t) =
        Inr (Some True)) \<and>
   (image baseline = None \<and> present candidate \<noteq> None \<and>
    canvasFits (prepare baseline candidate t) \<longrightarrow>
      map_sum id (map_option returned)
        (diffImagesAsync MISSING_BASELINE MISSING_CANDIDATE baseline candidate t) =
        Inr (Some \<lparr>r_mismatchedPixels = MISSING_BASELINE, r_diffHash = 0\<rparr>) \<and>
      map_sum id (map_option centreHighlighted)
        (diffImagesAsync MISSING_BASELINE MISSING_CANDIDATE baseline candidate t) =
        Inr (Some True)) \<and>
   ((image baseline \<noteq> None \<or> image candidate \<noteq> None) \<and>
    (width (prepare baseline candidate t) = 0 \<or> height (prepare baseline candidate t) = 0) \<longrightarrow>
      diffImagesAsync MISSING_BASELINE MISSING_CANDIDATE baseline candidate t = Inl TypeError)"
proof (intro conjI impI)
  let ?diff = "diffImagesAsync MISSING_BASELINE MISSING_CANDIDATE baseline candidate t"
  show "?diff = Inr None" if "image baseline = None \<and> image candidate = None"
    using that by (simp add: diffImagesAsync_def)
  show "?diff = Inl TypeError"
    if "(image baseline \<noteq> None \<or> image candidate \<noteq> None) \<and>
        (width (prepare baseline candidate t) = 0 \<or> height (prepare baseline candidate t) = 0)"
    using that by (intro diffImagesAsync_null) simp_all
  have hl: "map_sum id (map_option centreHighlighted) ?diff = Inr (Some True)"
    if "present baseline = None \<or> present candidate = None"
      and "present baseline \<noteq> None \<or> present candidate \<noteq> None"
      and "canvasFits (prepare baseline candidate t)"
      and "map_sum id (map_option returned) ?diff = Inr (Some r)" for r
  proof -
    from that(4) obtain out where out: "?diff = Inr (Some out)"
      by (cases ?diff) (auto simp: map_option_case split: option.splits)
    have "centreHighlighted out"
      unfolding centreHighlighted_def list_all_iff
      using centre_highlighted [OF that(1,2,3) out] by simp
    then show ?thesis by (simp add: out)
  qed
  {
    assume a: "present baseline \<noteq> None \<and> image candidate = None \<and>
      canvasFits (prepare baseline candidate t)"
    then obtain bp where bp: "present baseline = Some bp" by auto
    show r: "map_sum id (map_option returned) ?diff =
        Inr (Some \<lparr>r_mismatchedPixels = MISSING_CANDIDATE, r_diffHash = 0\<rparr>)"
      using only_baseline [OF bp] a by simp
    show "map_sum id (map_option centreHighlighted) ?diff = Inr (Some True)"
      using a by (intro hl [OF _ _ _ r]) (simp_all add: present_None)
  }
  {
    assume a: "image baseline = None \<and> present candidate \<noteq> None \<and>
      canvasFits (prepare baseline candidate t)"
    then obtain cp where cp: "present candidate = Some cp" by auto
    show r: "map_sum id (map_option returned) ?diff =
        Inr (Some \<lparr>r_mismatchedPixels = MISSING_BASELINE, r_diffHash = 0\<rparr>)"
      using only_candidate [OF _ cp] a by simp
    show "map_sum id (map_option centreHighlighted) ?diff = Inr (Some True)"
      using a by (intro hl [OF _ _ _ r]) (simp_all add: present_None)
  }
qed

theorem missing_image_results_witness:
  "(image absent = None \<and>
    diffImagesAsync (- 1) (- 2) absent absent (Num (3 / 100)) = Inr None) \<and>
   (present (fullFrame ''baseline.png'' 1 1 [rgba 0 0 0 255]) \<noteq> None \<and> image absent = None \<and>
    canvasFits (prepare (fullFrame ''baseline.png'' 1 1 [rgba 0 0 0 255]) absent (Num (3 / 100))) \<and>
    map_sum id (map_option returned)
      (diffImagesAsync (- 1) (- 2) (fullFrame ''baseline.png'' 1 1 [rgba 0 0 0 255]) absent
         (Num (3 / 100))) =
      Inr (Some \<lparr>r_mismatchedPixels = - 2, r_diffHash = 0\<rparr>) \<and>
    map_sum id (map_option centreHighlighted)
      (diffImagesAsync (- 1) (- 2) (fullFrame ''baseline.png'' 1 1 [rgba 0 0 0 255]) absent
         (Num (3 / 100))) = Inr (Some True)) \<and>
   (present (fullFrame ''candidate.png'' 1 1 [rgba 0 0 0 255]) \<noteq> None \<and>
    canvasFits (prepare absent (fullFrame ''candidate.png'' 1 1 [rgba 0 0 0 255]) (Num (3 / 100))) \<and>
    map_sum id (map_option returned)
      (diffImagesAsync (- 1) (- 2) absent (fullFrame ''candidate.png'' 1 1 [rgba 0 0 0 255])
         (Num (3 / 100))) =
      Inr (Some \<lparr>r_mismatchedPixels = - 1, r_diffHash = 0\<rparr>) \<and>
    map_sum id (map_option centreHighlighted)
      (diffImagesAsync (- 1) (- 2) absent (fullFrame ''candidate.png'' 1 1 [rgba 0 0 0 255])
         (Num (3 / 100))) = Inr (Some True)) \<and>
   (image (withSidecar ''candidate'' 1 1 [rgba 0 0 0 255]
        \<lparr>vp_x = 0, vp_y = 0, vp_width = 1, vp_height = 0, vp_scale = 1\<rparr>) \<noteq> None \<and>
    height (prepare absent
      (withSidecar ''candidate'' 1 1 [rgba 0 0 0 255]
         \<lparr>vp_x = 0, vp_y = 0, vp_width = 1, vp_height = 0, vp_scale = 1\<rparr>) (Num (3 / 100))) = 0 \<and>
    diffImagesAsync (- 1) (- 2) absent
      (withSidecar ''candidate'' 1 1 [rgba 0 0 0 255]
         \<lparr>vp_x = 0, vp_y = 0, vp_width = 1, vp_height = 0, vp_scale = 1\<rparr>) (Num (3 / 100)) =
      Inl TypeError)"
  using missing_image_results [where baseline = absent and candidate = absent
      and MISSING_BASELINE = "- 1" and MISSING_CANDIDATE = "- 2" and t = "Num (3 / 100)"]
    missing_image_results [where baseline = "fullFrame ''baseline.png'' 1 1 [rgba 0 0 0 255]"
      and candidate = absent
      and MISSING_BASELINE = "- 1" and MISSING_CANDIDATE = "- 2" and t = "Num (3 / 100)"]
    missing_image_results [where baseline = absent
      and candidate = "fullFrame ''candidate.png'' 1 1 [rgba 0 0 0 255]"
      and MISSING_BASELINE = "- 1" and MISSING_CANDIDATE = "- 2" and t = "Num (3 / 100)"]
    missing_image_results [where baseline = absent
      and candidate = "withSidecar ''candidate'' 1 1 [rgba 0 0 0 255]
         \<lparr>vp_x = 0, vp_y = 0, vp_width = 1, vp_height = 0, vp_scale = 1\<rparr>"
      and MISSING_BASELINE = "- 1" and MISSING_CANDIDATE = "- 2" and t = "Num (3 / 100)"]
  by (simp add: present_fullFrame present_withSidecar present_absent canvasFits_def prepare_def
      Let_def)
    (simp add: absent_def withSidecar_def)

subsection \<open>C3: the threshold and the number of mismatches\<close>

text \<open>
  Claim C3 states that for both images present and thresholds \<open>t1 < t2\<close> in [0,1], the
  call at \<open>t1\<close> returns at least as many mismatched pixels as the call at \<open>t2\<close>.
  It fails at \<open>t1 = 0\<close>, which is replaced by the default 0.03: a pixel pair whose
  green bytes differ by 10 has the brightness difference 2.99, a match at threshold 0
  (effective 7.65) and a mismatch at threshold 0.01 (effective 2.55).
\<close>

theorem threshold_zero_not_most_sensitive:
  "map_sum id (map_option returned)
     (diffImagesAsync (- 1) (- 2) (fullFrame ''baseline.png'' 1 1 [rgba 0 0 0 255])
        (fullFrame ''candidate.png'' 1 1 [rgba 0 10 0 255]) (Num 0)) =
     Inr (Some \<lparr>r_mismatchedPixels = 0, r_diffHash = 0\<rparr>) \<and>
   map_sum id (map_option returned)
     (diffImagesAsync (- 1) (- 2) (fullFrame ''baseline.png'' 1 1 [rgba 0 0 0 255])
        (fullFrame ''candidate.png'' 1 1 [rgba 0 10 0 255]) (Num (1 / 100))) =
     Inr (Some \<lparr>r_mismatchedPixels = 1, r_diffHash = 4919\<rparr>)"
proof -
  have p: "positions (Suc 0) (Suc 0) = [(0, 0)]"
    by (simp add: positions_def)
  have "mismatches (prepare (fullFrame ''baseline.png'' 1 1 [rgba 0 0 0 255])
        (fullFrame ''candidate.png'' 1 1 [rgba 0 10 0 255]) (Num 0)) = []"
    by (simp add: mismatches_fullFrame p mismatch_def brightness_def channel_def rgba_def
        threshold255Of_default double_simps)
  moreover have "mismatches (prepare (fullFrame ''baseline.png'' 1 1 [rgba 0 0 0 255])
        (fullFrame ''candidate.png'' 1 1 [rgba 0 10 0 255]) (Num (1 / 100))) = [(0, 0)]"
    by (simp add: mismatches_fullFrame p mismatch_def brightness_def channel_def rgba_def
        threshold255Of_direct thresholdOperand_def double_simps)
  ultimately show ?thesis
    by (simp add: diffImagesAsync_both [OF present_fullFrame present_fullFrame]
        canvasFits_fullFrame hashAll_def hashStep_def hashKey_def DIFF_HASH_SPREAD_def)
qed

text \<open>
  Claim C3, amended: for both images present, a diff image of positive width and height
  (and fewer than \<open>2^30\<close> bytes), and thresholds \<open>t1 < t2\<close> in [0,1] with \<open>t1\<close>
  other than 0 (not rounded to 0 as a double) or \<open>t2\<close> at least 0.03, both calls return,
  and the call at \<open>t1\<close> returns at least as many mismatched pixels as the call at
  \<open>t2\<close>.
\<close>

theorem threshold_monotone:
  assumes "present baseline = Some bp" and "present candidate = Some cp"
    and "canvasFits (prepare baseline candidate (Num t1))"
    and "0 \<le> t1" and "t1 < t2" and "t2 \<le> 1" and "double t1 \<noteq> 0 \<or> 3 / 100 \<le> t2"
  shows "\<exists>o1 o2. diffImagesAsync mb mc baseline candidate (Num t1) = Inr (Some o1) \<and>
           diffImagesAsync mb mc baseline candidate (Num t2) = Inr (Some o2) \<and>
           r_mismatchedPixels (returned o2) \<le> r_mismatchedPixels (returned o1)"
proof -
  let ?e1 = "prepare baseline candidate (Num t1)"
  let ?e2 = "prepare baseline candidate (Num t2)"
  obtain bi bv ci cv where p: "present baseline = Some (bi, bv)" "present candidate = Some (ci, cv)"
    using assms(1,2) by (cases bp, cases cp) auto
  have fits2: "canvasFits ?e2"
    using assms(3) canvasFits_threshold [of baseline candidate "Num t2" "Num t1"] by simp
  have "t1 \<le> t2" using assms(5) by simp
  from threshold255Of_mono [OF assms(4) this assms(7)]
  have t: "threshold255 ?e1 \<le> threshold255 ?e2"
    by (simp add: prepare_both(6) [OF p])
  have "?e2 = ?e1\<lparr>threshold255 := threshold255 ?e2\<rparr>"
    using prepare_threshold [of baseline candidate "Num t2" "Num t1"]
    by (simp add: prepare_both(6) [OF p])
  with t have "length (mismatches ?e2) \<le> length (mismatches ?e1)"
    by (rule mismatches_antimono)
  then show ?thesis
    by (simp add: diffImagesAsync_both [OF assms(1,2,3)] diffImagesAsync_both [OF assms(1,2) fits2])
qed

theorem threshold_monotone_witness:
  "present (fullFrame ''baseline.png'' 1 1 [rgba 0 0 0 255]) =
     Some (\<lparr>img_width = 1, img_height = 1, img_data32 = [rgba 0 0 0 255]\<rparr>,
           \<lparr>vp_x = 0, vp_y = 0, vp_width = 1, vp_height = 1, vp_scale = 1\<rparr>) \<and>
   present (fullFrame ''candidate.png'' 1 1 [rgba 0 10 0 255]) =
     Some (\<lparr>img_width = 1, img_height = 1, img_data32 = [rgba 0 10 0 255]\<rparr>,
           \<lparr>vp_x = 0, vp_y = 0, vp_width = 1, vp_height = 1, vp_scale = 1\<rparr>) \<and>
   canvasFits (prepare (fullFrame ''baseline.png'' 1 1 [rgba 0 0 0 255])
     (fullFrame ''candidate.png'' 1 1 [rgba 0 10 0 255]) (Num (1 / 100))) \<and>
   (0 :: real) \<le> 1 / 100 \<and> (1 / 100 :: real) < 3 / 100 \<and> (3 / 100 :: real) \<le> 1 \<and>
   double (1 / 100) \<noteq> 0 \<and>
   (\<exists>o1 o2.
      diffImagesAsync (- 1) (- 2) (fullFrame ''baseline.png'' 1 1 [rgba 0 0 0 255])
        (fullFrame ''candidate.png'' 1 1 [rgba 0 10 0 255]) (Num (1 / 100)) = Inr (Some o1) \<and>
      diffImagesAsync (- 1) (- 2) (fullFrame ''baseline.png'' 1 1 [rgba 0 0 0 255])
        (fullFrame ''candidate.png'' 1 1 [rgba 0 10 0 255]) (Num (3 / 100)) = Inr (Some o2) \<and>
      r_mismatchedPixels (returned o2) \<le> r_mismatchedPixels (returned o1))"
proof -
  have d: "double (1 / 100) \<noteq> 0"
    by (simp add: double_simps)
  have fits: "canvasFits (prepare (fullFrame ''baseline.png'' 1 1 [rgba 0 0 0 255])
     (fullFrame ''candidate.png'' 1 1 [rgba 0 10 0 255]) (Num (1 / 100)))"
    by (simp add: canvasFits_fullFrame)
  from threshold_monotone [OF present_fullFrame present_fullFrame fits, of "3 / 100" "- 1" "- 2"] d
  show ?thesis
    using fits by (simp add: present_fullFrame)
qed

subsection \<open>C4: the positional hash\<close>

text \<open>
  Claim C4 states that the returned \<open>diffHash\<close> is the reference computation of section
  4.4 of the specification, whose key \<open>y * SPREAD + x'\<close> has a per-row counter \<open>x'\<close>.
  The loop sets \<open>diffHashIndex\<close> to \<open>y * SPREAD\<close> when a row starts and never
  advances it, unlike the other per-pixel counters of the row (\<open>indexDiff32\<close>,
  \<open>bIndex8\<close>, \<open>cIndex8\<close>): the key has no \<open>x'\<close>. For two mismatches in one row
  (2\<times>1 black against 2\<times>1 white) the call returns \<open>SPREAD = 4919\<close> where the reference
  computation gives \<open>SPREAD + 1 = 4920\<close>.
\<close>

theorem diffHash_ignores_columns:
  "map_sum id (map_option returned)
     (diffImagesAsync mb mc
        (fullFrame ''baseline.png'' 2 1 [rgba 0 0 0 255, rgba 0 0 0 255])
        (fullFrame ''candidate.png'' 2 1 [rgba 255 255 255 255, rgba 255 255 255 255])
        (Num (3 / 100))) =
     Inr (Some \<lparr>r_mismatchedPixels = 2, r_diffHash = 4919\<rparr>) \<and>
   mismatches
     (prepare (fullFrame ''baseline.png'' 2 1 [rgba 0 0 0 255, rgba 0 0 0 255])
        (fullFrame ''candidate.png'' 2 1 [rgba 255 255 255 255, rgba 255 255 255 255])
        (Num (3 / 100))) = [(0, 0), (0, 1)] \<and>
   specDiffHash [(0, 0), (0, 1)] = 4920"
proof -
  let ?e = "prepare (fullFrame ''baseline.png'' 2 1 [rgba 0 0 0 255, rgba 0 0 0 255])
        (fullFrame ''candidate.png'' 2 1 [rgba 255 255 255 255, rgba 255 255 255 255])
        (Num (3 / 100))"
  have ms: "mismatches ?e = [(0, 0), (0, 1)]"
    by (simp add: mismatches_fullFrame positions_2_1 mismatch_def brightness_def channel_def
        rgba_def threshold255Of_default double_simps)
  have "hashAll [(0, 0), (0, 1)] = (2, 4919, 0)"
    by (simp add: hashAll_def hashStep_def hashKey_def DIFF_HASH_SPREAD_def)
  moreover have "specDiffHash [(0, 0), (0, 1)] = 4920"
    by (simp add: specDiffHash_def specKey_def DIFF_HASH_SPREAD_def)
  ultimately show ?thesis
    using ms
    by (simp add: diffImagesAsync_both [OF present_fullFrame present_fullFrame] canvasFits_fullFrame)
qed

subsection \<open>C5: the hash is zero exactly when nothing mismatches\<close>

text \<open>
  Claim C5: with both images present, the returned \<open>diffHash\<close> is 0 if and only if the
  returned \<open>mismatchedPixels\<close> is 0, and with at least one mismatched pixel
  \<open>diffHash\<close> is not 0 (it is at least \<open>SPREAD\<close>). \<open>mismatchedPixels\<close> is the
  number of positions whose pixels were classified as a mismatch. The call returns when
  the width and the height of the diff image are positive (and its buffer has fewer than
  \<open>2^30\<close> bytes).
\<close>

theorem diffHash_zero_iff_no_mismatch:
  assumes "present baseline = Some bp" and "present candidate = Some cp"
    and "canvasFits (prepare baseline candidate t)"
  shows "\<exists>out. diffImagesAsync mb mc baseline candidate t = Inr (Some out) \<and>
           r_mismatchedPixels (returned out) =
             int (length (mismatches (prepare baseline candidate t))) \<and>
           (r_diffHash (returned out) = 0 \<longleftrightarrow> r_mismatchedPixels (returned out) = 0) \<and>
           (0 < r_mismatchedPixels (returned out) \<longrightarrow>
              DIFF_HASH_SPREAD \<le> r_diffHash (returned out) \<and> r_diffHash (returned out) \<noteq> 0)"
proof -
  let ?ms = "mismatches (prepare baseline candidate t)"
  have z: "fst (snd (hashAll ?ms)) = 0 \<longleftrightarrow> ?ms = []"
    by (rule hashAll_zero_iff [OF sorted_mismatches])
  have "DIFF_HASH_SPREAD \<le> fst (snd (hashAll ?ms))" if ne: "?ms \<noteq> []"
  proof -
    from ne obtain q qs where ms: "?ms = q # qs" by (auto simp: neq_Nil_conv)
    then have srt: "sorted (map fst (q # qs))"
      using sorted_mismatches [of "prepare baseline candidate t"] by simp
    then have "\<forall>r\<in>set qs. hashKey q \<le> hashKey r"
      by (auto simp: hashKey_def DIFF_HASH_SPREAD_def)
    then have "0 \<le> (\<Sum>r\<leftarrow>qs. hashKey r - hashKey q)"
      by (intro sum_list_nonneg) auto
    then show ?thesis by (simp add: ms hashAll_Cons [OF srt])
  qed
  then show ?thesis
    using z by (auto simp: diffImagesAsync_both [OF assms(1,2,3)])
qed

theorem diffHash_zero_iff_no_mismatch_witness:
  "present (fullFrame ''baseline.png'' 1 1 [rgba 0 0 0 255]) =
     Some (\<lparr>img_width = 1, img_height = 1, img_data32 = [rgba 0 0 0 255]\<rparr>,
           \<lparr>vp_x = 0, vp_y = 0, vp_width = 1, vp_height = 1, vp_scale = 1\<rparr>) \<and>
   present (fullFrame ''candidate.png'' 1 1 [rgba 255 255 255 255]) =
     Some (\<lparr>img_width = 1, img_height = 1, img_data32 = [rgba 255 255 255 255]\<rparr>,
           \<lparr>vp_x = 0, vp_y = 0, vp_width = 1, vp_height = 1, vp_scale = 1\<rparr>) \<and>
   canvasFits (prepare (fullFrame ''baseline.png'' 1 1 [rgba 0 0 0 255])
     (fullFrame ''candidate.png'' 1 1 [rgba 255 255 255 255]) (Num (3 / 100))) \<and>
   (\<exists>out. diffImagesAsync (- 1) (- 2) (fullFrame ''baseline.png'' 1 1 [rgba 0 0 0 255])
             (fullFrame ''candidate.png'' 1 1 [rgba 255 255 255 255]) (Num (3 / 100)) =
             Inr (Some out) \<and>
          r_mismatchedPixels (returned out) =
            int (length (mismatches (prepare (fullFrame ''baseline.png'' 1 1 [rgba 0 0 0 255])
               (fullFrame ''candidate.png'' 1 1 [rgba 255 255 255 255]) (Num (3 / 100))))) \<and>
          (r_diffHash (returned out) = 0 \<longleftrightarrow> r_mismatchedPixels (returned out) = 0) \<and>
          (0 < r_mismatchedPixels (returned out) \<longrightarrow>
             DIFF_HASH_SPREAD \<le> r_diffHash (returned out) \<and> r_diffHash (returned out) \<noteq> 0))"
proof -
  have fits: "canvasFits (prepare (fullFrame ''baseline.png'' 1 1 [rgba 0 0 0 255])
     (fullFrame ''candidate.png'' 1 1 [rgba 255 255 255 255]) (Num (3 / 100)))"
    by (simp add: canvasFits_fullFrame)
  from diffHash_zero_iff_no_mismatch
      [where baseline = "fullFrame ''baseline.png'' 1 1 [rgba 0 0 0 255]"
        and candidate = "fullFrame ''candidate.png'' 1 1 [rgba 255 255 255 255]"
        and mb = "- 1" and mc = "- 2" and t = "Num (3 / 100)",
       OF present_fullFrame present_fullFrame fits]
  show ?thesis
    using fits by (simp add: present_fullFrame)
qed

subsection \<open>C6: the effective threshold\<close>

text \<open>
  Claim C6 states that the effective per-pixel threshold is \<open>255 * clamp(threshold, 0, 1)\<close>
  for every threshold, that a missing or invalid threshold falls back to 0.03, and that a
  threshold of 0 yields the effective threshold 0. The last part fails: \<^verbatim>\<open>||\<close> treats 0
  as missing, so a threshold of 0 gives \<open>255 * 0.03 = 7.65\<close>, which the engine holds
  as the double \<open>7.6499999999999995\<close>.
\<close>

theorem zero_threshold_takes_default:
  "BRIGHTNESS_DIFFERENCE_THRESHOLD (Num 0) = 153 / 20 \<and> 255 * clamp 0 0 1 = 0 \<and>
   threshold255Of (Num 0) = 8613134287346073 / 2 ^ 50"
  by (simp add: BRIGHTNESS_DIFFERENCE_THRESHOLD_def DEFAULT_THRESHOLD_def clamp_def
      threshold255Of_default)

text \<open>
  Claim C6, amended: the effective threshold is \<open>255 * clamp(threshold, 0, 1)\<close> for every
  number other than 0, and \<open>255 * 0.03\<close> for 0, for \<^verbatim>\<open>NaN\<close> and for a missing
  threshold. The threshold that the loop compares with is the double of the same product,
  taken at the doubles of the threshold and of 0.03.
\<close>

theorem effective_threshold:
  "BRIGHTNESS_DIFFERENCE_THRESHOLD (Num v) =
     (if v = 0 then 255 * (3 / 100) else 255 * clamp v 0 1) \<and>
   BRIGHTNESS_DIFFERENCE_THRESHOLD NaN = 255 * (3 / 100) \<and>
   BRIGHTNESS_DIFFERENCE_THRESHOLD Undefined = 255 * (3 / 100) \<and>
   threshold255 (prepare baseline candidate (Num v)) =
     (if double v = 0 then double (255 * double (3 / 100))
      else double (255 * clamp (double v) 0 1)) \<and>
   threshold255 (prepare baseline candidate NaN) = double (255 * double (3 / 100)) \<and>
   threshold255 (prepare baseline candidate Undefined) = double (255 * double (3 / 100))"
proof -
  have d: "min 1 (max 0 (double (3 / 100))) = double (3 / 100)"
    using double_DEFAULT_THRESHOLD by (simp add: DEFAULT_THRESHOLD_def)
  have "threshold255 (prepare baseline candidate t) = threshold255Of t" for t
    by (simp add: prepare_def Let_def)
  then show ?thesis
    using d
    by (simp add: BRIGHTNESS_DIFFERENCE_THRESHOLD_def DEFAULT_THRESHOLD_def clamp_def
        threshold255Of_direct thresholdOperand_def)
qed

subsection \<open>C7: the tint of the side panels\<close>




subsection \<open>C8: an image against itself\<close>

text \<open>
  Claim C8 states that for every image that is present and every threshold in [0,1],
  diffing the image against itself (the same pixels and the same viewport on both sides)
  returns \<open>mismatchedPixels = 0\<close> and \<open>diffHash = 0\<close>, and no diff file is written.
  For an image whose sidecar file gives a viewport of width 0 the diff image has no
  buffer: the call throws \<^verbatim>\<open>TypeError\<close> at line 126 and returns nothing.
\<close>

theorem self_diff_of_empty_viewport_throws:
  "diffImagesAsync (- 1) (- 2)
     (withSidecar ''shot'' 1 1 [rgba 10 20 30 255]
        \<lparr>vp_x = 0, vp_y = 0, vp_width = 0, vp_height = 1, vp_scale = 1\<rparr>)
     (withSidecar ''shot'' 1 1 [rgba 10 20 30 255]
        \<lparr>vp_x = 0, vp_y = 0, vp_width = 0, vp_height = 1, vp_scale = 1\<rparr>)
     (Num (3 / 100)) = Inl TypeError"
  by (rule diffImagesAsync_null)
    (simp_all add: prepare_def Let_def present_withSidecar, simp add: withSidecar_def)

text \<open>
  Claim C8, amended: for an image that is present, with a viewport whose width and
  height are positive (and make a diff image of fewer than \<open>2^30\<close> bytes), and a
  threshold in [0,1], diffing the image against itself (the same pixels and the same
  viewport on both sides) returns \<open>mismatchedPixels = 0\<close> and \<open>diffHash = 0\<close>, and no
  diff file is written.
\<close>

theorem self_diff_has_no_mismatch:
  assumes "present baseline = Some p" and "present candidate = Some p"
    and "canvasFits (prepare baseline candidate (Num t))"
    and "0 \<le> t" and "t \<le> 1"
  shows "\<exists>out. diffImagesAsync mb mc baseline candidate (Num t) = Inr (Some out) \<and>
           returned out = \<lparr>r_mismatchedPixels = 0, r_diffHash = 0\<rparr> \<and> \<not> written out"
proof -
  let ?e = "prepare baseline candidate (Num t)"
  obtain i v where p: "present baseline = Some (i, v)" "present candidate = Some (i, v)"
    using assms(1,2) by (cases p) auto
  have same: "baselinePixel ?e y x = candidatePixel ?e y x" for y x
    using p by (simp add: baselinePixel_def candidatePixel_def prepare_def)
  have "0 < threshold255 ?e"
    using threshold255Of_positive [OF assms(4)] by (simp add: prepare_both(6) [OF p])
  then have "\<not> mismatchAt ?e q" for q
    by (simp add: mismatchAt_def mismatch_def same brightness_def)
  then have "mismatches ?e = []"
    by (simp add: mismatches_def)
  then show ?thesis
    by (simp add: diffImagesAsync_both [OF assms(1,2,3)] hashAll_def)
qed

theorem self_diff_has_no_mismatch_witness:
  "present (fullFrame ''shot.png'' 2 1 [rgba 10 20 30 255, rgba 0 0 0 0]) =
     Some (\<lparr>img_width = 2, img_height = 1, img_data32 = [rgba 10 20 30 255, rgba 0 0 0 0]\<rparr>,
           \<lparr>vp_x = 0, vp_y = 0, vp_width = 2, vp_height = 1, vp_scale = 1\<rparr>) \<and>
   canvasFits (prepare (fullFrame ''shot.png'' 2 1 [rgba 10 20 30 255, rgba 0 0 0 0])
     (fullFrame ''shot.png'' 2 1 [rgba 10 20 30 255, rgba 0 0 0 0]) (Num 0)) \<and>
   (0 :: real) \<le> 0 \<and> (0 :: real) \<le> 1 \<and>
   (\<exists>out. diffImagesAsync (- 1) (- 2)
             (fullFrame ''shot.png'' 2 1 [rgba 10 20 30 255, rgba 0 0 0 0])
             (fullFrame ''shot.png'' 2 1 [rgba 10 20 30 255, rgba 0 0 0 0]) (Num 0) =
             Inr (Some out) \<and>
          returned out = \<lparr>r_mismatchedPixels = 0, r_diffHash = 0\<rparr> \<and> \<not> written out)"
proof -
  have fits: "canvasFits (prepare (fullFrame ''shot.png'' 2 1 [rgba 10 20 30 255, rgba 0 0 0 0])
     (fullFrame ''shot.png'' 2 1 [rgba 10 20 30 255, rgba 0 0 0 0]) (Num 0))"
    by (simp add: canvasFits_fullFrame)
  from self_diff_has_no_mismatch
      [where baseline = "fullFrame ''shot.png'' 2 1 [rgba 10 20 30 255, rgba 0 0 0 0]"
        and candidate = "fullFrame ''shot.png'' 2 1 [rgba 10 20 30 255, rgba 0 0 0 0]"
        and mb = "- 1" and mc = "- 2" and t = 0, OF present_fullFrame present_fullFrame fits]
  show ?thesis
    using fits by (simp add: present_fullFrame)
qed

subsection \<open>C9: 4\<times>4 black against 4\<times>4 white\<close>

text \<open>
  Claim C9: a 4\<times>4 fully opaque black baseline against a 4\<times>4 fully opaque white
  candidate at threshold 0.03 returns \<open>mismatchedPixels = 16\<close> and a \<open>diffHash\<close>
  other than 0 (it is \<open>25 * SPREAD = 122975\<close>), and a diff file is written whose canvas
  is 12 pixels wide and 4 pixels high.
\<close>

theorem black_white_4x4:
  "map_sum id (map_option (\<lambda>out. (returned out, diffWidth out, diffHeight out, written out)))
     (diffImagesAsync mb mc (fullFrame ''black.png'' 4 4 (replicate 16 (rgba 0 0 0 255)))
        (fullFrame ''white.png'' 4 4 (replicate 16 (rgba 255 255 255 255))) (Num (3 / 100))) =
   Inr (Some (\<lparr>r_mismatchedPixels = 16, r_diffHash = 122975\<rparr>, 12, 4, True)) \<and>
   (122975 :: int) \<noteq> 0"
proof -
  let ?e = "prepare (fullFrame ''black.png'' 4 4 (replicate 16 (rgba 0 0 0 255)))
        (fullFrame ''white.png'' 4 4 (replicate 16 (rgba 255 255 255 255))) (Num (3 / 100))"
  have fits: "canvasFits ?e"
    by (simp add: canvasFits_fullFrame)
  have "mismatches ?e = filter (\<lambda>p. True) (positions 4 4)"
    unfolding mismatches_fullFrame
      [of "replicate 16 (rgba 0 0 0 255)" 4 4 "replicate 16 (rgba 255 255 255 255)", simplified]
    by (rule filter_cong) (auto simp: set_positions black_white_mismatch rgba_def)
  then have ms: "mismatches ?e = positions 4 4" by simp
  have h: "hashAll (positions 4 4) = (16, 122975, 0)"
    by (simp add: positions_4_4 hashAll_def hashStep_def hashKey_def DIFF_HASH_SPREAD_def)
  have wh: "width ?e = 4" "height ?e = 4"
    by (simp_all add: prepare_fullFrame)
  show ?thesis
    by (simp add: diffImagesAsync_both [OF present_fullFrame present_fullFrame fits] ms h wh)
      (simp add: positions_4_4)
qed

subsection \<open>C10: rows that were not copied\<close>

text \<open>
  Claim C10: with both images present the comparison runs over the component-wise maximum
  of the two viewports, and in a row whose copy was skipped on one side (the row-copy guard
  failed) the pixels of the other side are compared with the zero pixels that the canvas
  was created with, and counted as mismatched whenever the brightness difference reaches
  the threshold. Below, \<open>buffer32\<close> is the buffer that the constructor of the diff image
  provides and \<open>s\<close> the state of the loop when row \<open>y\<close> starts: the row adds to
  \<open>mismatchedPixels\<close> the number of columns whose two pixels, each the copied one where
  the side's guard holds and 0 where it fails, are not below the threshold in brightness
  difference, as the engine computes it in doubles.
\<close>

theorem rows_not_copied_compare_with_zero:
  fixes t :: jsnumber
  assumes "present baseline = Some (bi, bv)" and "present candidate = Some (ci, cv)"
    and "e = prepare baseline candidate t" and "canvasFits e"
    and "png_data (newPNG (width e * 3) (height e)) = Some buffer32"
    and "y < height e"
    and "s = foldl (\<lambda>s y. diffRow e y s) (initialState mb mc e buffer32) [0..<y]"
  shows "width e = max (vp_width bv) (vp_width cv) \<and>
     height e = max (vp_height bv) (vp_height cv) \<and>
     mismatchedPixels (diffRow e y s) =
       mismatchedPixels s +
       int (length (filter
         (\<lambda>x. \<not> brightness
                 (if lineAvailable (Some (img_data32 bi)) (baselineOffset32 s) (width e)
                  then img_data32 bi ! (baselineOffset32 s + x) else 0)
                 (if lineAvailable (Some (img_data32 ci)) (candidateOffset32 s) (width e)
                  then img_data32 ci ! (candidateOffset32 s + x) else 0)
               < threshold255 e)
         [0..<width e]))"
proof -
  note pb = prepare_both [OF assms(1,2), of t, folded assms(3)]
  have both: "baselineData32 e \<noteq> None" "candidateData32 e \<noteq> None" "\<not> missingOneImage e"
    using pb by simp_all
  have buf: "buffer32 = blankCanvas e"
    using assms(5) newPNG_fits [OF assms(4)] by simp
  have inv: "canvasInv e y s"
    unfolding assms(7) buf
    using rows_both [OF both less_imp_le [OF assms(6)] initialState_inv] by simp
  then have off: "baselineOffset32 s = baselineOffsetAt e y"
    "candidateOffset32 s = candidateOffsetAt e y"
    by (simp_all add: canvasInv_def)
  have "mismatchedPixels (diffRow e y s) = fst (numbers (diffRow e y s))"
    by (simp add: numbers_def)
  also have "\<dots> = fst (rowNumbers e (numbers s) y)"
    by (simp add: diffRow_both(2) [OF both assms(6) inv])
  also have "\<dots> = mismatchedPixels s +
      int (length (filter (\<lambda>x. mismatch (threshold255 e) (baselinePixel e y x)
                                   (candidatePixel e y x)) [0..<width e]))"
    by (simp add: rowNumbers_count numbers_def)
  finally have count: "mismatchedPixels (diffRow e y s) = mismatchedPixels s +
      int (length (filter (\<lambda>x. mismatch (threshold255 e) (baselinePixel e y x)
                                   (candidatePixel e y x)) [0..<width e]))" .
  have b: "baselinePixel e y x =
      (if lineAvailable (Some (img_data32 bi)) (baselineOffset32 s) (width e)
       then img_data32 bi ! (baselineOffset32 s + x) else 0)" for x
    unfolding off by (simp add: baselinePixel_def panelPixel_def baselineOffsetAt_def pb(1))
  have c: "candidatePixel e y x =
      (if lineAvailable (Some (img_data32 ci)) (candidateOffset32 s) (width e)
       then img_data32 ci ! (candidateOffset32 s + x) else 0)" for x
    unfolding off by (simp add: candidatePixel_def panelPixel_def candidateOffsetAt_def pb(2))
  show ?thesis
    unfolding count mismatch_def b c using pb(4,5) by simp
qed

theorem rows_not_copied_compare_with_zero_witness:
  "present (fullFrame ''baseline.png'' 1 1 [0xffffffff]) =
     Some (\<lparr>img_width = 1, img_height = 1, img_data32 = [0xffffffff]\<rparr>,
           \<lparr>vp_x = 0, vp_y = 0, vp_width = 1, vp_height = 1, vp_scale = 1\<rparr>) \<and>
   present (fullFrame ''candidate.png'' 1 2 [0xffffffff, 0xffffffff]) =
     Some (\<lparr>img_width = 1, img_height = 2, img_data32 = [0xffffffff, 0xffffffff]\<rparr>,
           \<lparr>vp_x = 0, vp_y = 0, vp_width = 1, vp_height = 2, vp_scale = 1\<rparr>) \<and>
   canvasFits (prepare (fullFrame ''baseline.png'' 1 1 [0xffffffff])
                 (fullFrame ''candidate.png'' 1 2 [0xffffffff, 0xffffffff]) (Num (3 / 100))) \<and>
   png_data (newPNG 3 2) = Some (replicate 6 0) \<and>
   1 < height (prepare (fullFrame ''baseline.png'' 1 1 [0xffffffff])
                 (fullFrame ''candidate.png'' 1 2 [0xffffffff, 0xffffffff]) (Num (3 / 100))) \<and>
   width (prepare (fullFrame ''baseline.png'' 1 1 [0xffffffff])
            (fullFrame ''candidate.png'' 1 2 [0xffffffff, 0xffffffff]) (Num (3 / 100))) = 1 \<and>
   height (prepare (fullFrame ''baseline.png'' 1 1 [0xffffffff])
             (fullFrame ''candidate.png'' 1 2 [0xffffffff, 0xffffffff]) (Num (3 / 100))) = 2 \<and>
   \<not> lineAvailable (Some [0xffffffff])
       (baselineOffset32
          (foldl (\<lambda>s y. diffRow (prepare (fullFrame ''baseline.png'' 1 1 [0xffffffff])
                    (fullFrame ''candidate.png'' 1 2 [0xffffffff, 0xffffffff]) (Num (3 / 100))) y s)
             (initialState (- 1) (- 2) (prepare (fullFrame ''baseline.png'' 1 1 [0xffffffff])
                (fullFrame ''candidate.png'' 1 2 [0xffffffff, 0xffffffff]) (Num (3 / 100)))
                (replicate 6 0))
             [0..<1])) 1 \<and>
   mismatchedPixels
     (diffRow (prepare (fullFrame ''baseline.png'' 1 1 [0xffffffff])
                 (fullFrame ''candidate.png'' 1 2 [0xffffffff, 0xffffffff]) (Num (3 / 100))) 1
        (foldl (\<lambda>s y. diffRow (prepare (fullFrame ''baseline.png'' 1 1 [0xffffffff])
                  (fullFrame ''candidate.png'' 1 2 [0xffffffff, 0xffffffff]) (Num (3 / 100))) y s)
           (initialState (- 1) (- 2) (prepare (fullFrame ''baseline.png'' 1 1 [0xffffffff])
              (fullFrame ''candidate.png'' 1 2 [0xffffffff, 0xffffffff]) (Num (3 / 100)))
              (replicate 6 0))
           [0..<1])) =
   mismatchedPixels
     (foldl (\<lambda>s y. diffRow (prepare (fullFrame ''baseline.png'' 1 1 [0xffffffff])
               (fullFrame ''candidate.png'' 1 2 [0xffffffff, 0xffffffff]) (Num (3 / 100))) y s)
        (initialState (- 1) (- 2) (prepare (fullFrame ''baseline.png'' 1 1 [0xffffffff])
           (fullFrame ''candidate.png'' 1 2 [0xffffffff, 0xffffffff]) (Num (3 / 100)))
           (replicate 6 0))
        [0..<1]) + 1"
proof -
  let ?e = "prepare (fullFrame ''baseline.png'' 1 1 [0xffffffff])
      (fullFrame ''candidate.png'' 1 2 [0xffffffff, 0xffffffff]) (Num (3 / 100))"
  let ?s = "foldl (\<lambda>s y. diffRow ?e y s) (initialState (- 1) (- 2) ?e (replicate 6 0)) [0..<1]"
  have e: "width ?e = 1" "height ?e = 2" "threshold255 ?e = 8613134287346073 / 2 ^ 50"
    "baselineData32 ?e = Some [0xffffffff]" "candidateData32 ?e = Some [0xffffffff, 0xffffffff]"
    "baselineOffsetStart32 ?e = 0" "candidateOffsetStart32 ?e = 0"
    "baselineOffsetIncrement32 ?e = 1" "candidateOffsetIncrement32 ?e = 1"
    "\<not> missingOneImage ?e"
    by (simp_all add: prepare_fullFrame missingOneImage_def threshold255Of_default)
  have fits: "canvasFits ?e"
    by (simp add: canvasFits_fullFrame)
  have blank: "blankCanvas ?e = replicate 6 0"
    unfolding blankCanvas_def e(1,2) by simp
  have png: "png_data (newPNG (width ?e * 3) (height ?e)) = Some (replicate 6 0)"
    unfolding newPNG_fits [OF fits] blank by simp
  have both: "baselineData32 ?e \<noteq> None" "candidateData32 ?e \<noteq> None"
    using e(4,5) by simp_all
  have "1 \<le> height ?e" "1 < height ?e"
    using e(2) by simp_all
  note inv = rows_both [OF both e(10) this(1) initialState_inv, of "- 1" "- 2", unfolded blank]
  have off: "baselineOffset32 ?s = 1" "candidateOffset32 ?s = 1"
    using inv e
    by (simp_all add: canvasInv_def baselineOffsetAt_def candidateOffsetAt_def lineAvailable_Some)
  have far: "\<not> brightness 0 0xffffffff < 8613134287346073 / 2 ^ 50"
    by (simp add: brightness_def channel_def double_simps)
  from rows_not_copied_compare_with_zero [OF present_fullFrame present_fullFrame refl fits png
      \<open>1 < height ?e\<close> refl, of "- 1" "- 2"]
  have "mismatchedPixels (diffRow ?e 1 ?s) = mismatchedPixels ?s + 1"
    using off e(1,3) far
    by (simp add: lineAvailable_Some)
  moreover have "png_data (newPNG 3 2) = Some (replicate 6 0)"
    by (simp add: newPNG_def toInt32_def)
  ultimately show ?thesis
    using off e(1,2) fits by (simp add: present_fullFrame lineAvailable_Some)
qed

end
